(* ===== verification/Prelude.thy ===== *)
theory Prelude
  imports Main "HOL-Library.Stream"
begin

text \<open>
  Shared vocabulary of the development: the Python run-time behaviour that the
  game code in \<open>src/tetris.py\<close> relies on.  Python exceptions are values of the
  sum type \<open>py_error + 'a\<close> (\<open>Inl\<close> the exception), threaded with \<open>bind_e\<close>;
  list subscription and subscript assignment follow Python's rules (a negative
  index counts from the end, anything else out of range raises IndexError);
  \<open>list.index\<close> raises ValueError when the value is absent; \<open>random.choice\<close>
  raises IndexError on an empty sequence.  The process-global random number
  generator is a stream of raw draws: a draw \<open>k\<close> makes \<open>random.choice xs\<close> return
  \<open>xs ! (k mod length xs)\<close>, so quantifying over all streams covers every choice
  sequence the real generator can produce.  \<open>str\<close> on ints (used by the f-string of
  the score text) is \<open>py_str_int\<close>, and \<open>read_int\<close> reads its output back.
\<close>

named_theorems py_simps "Python list primitives evaluated at in-range indices"

datatype py_error = IndexError | ValueError

type_synonym 'a result = "py_error + 'a"

definition bind_e :: "'a result \<Rightarrow> ('a \<Rightarrow> 'b result) \<Rightarrow> 'b result" where
  "bind_e m f = (case m of Inl e \<Rightarrow> Inl e | Inr a \<Rightarrow> f a)"

fun map_e :: "('a \<Rightarrow> 'b result) \<Rightarrow> 'a list \<Rightarrow> 'b list result" where
  "map_e f [] = Inr []"
| "map_e f (x # xs) = bind_e (f x) (\<lambda>y. bind_e (map_e f xs) (\<lambda>ys. Inr (y # ys)))"

text \<open>Python's normalisation of a subscript: negative indices count from the end.\<close>

definition py_norm :: "'a list \<Rightarrow> int \<Rightarrow> int" where
  "py_norm xs i = (if i < 0 then i + int (length xs) else i)"

text \<open>\<open>xs[i]\<close>\<close>

definition py_get :: "'a list \<Rightarrow> int \<Rightarrow> 'a result" where
  "py_get xs i =
     (let j = py_norm xs i
      in if 0 \<le> j \<and> j < int (length xs) then Inr (xs ! nat j) else Inl IndexError)"

text \<open>\<open>xs[i] = v\<close>, returning the updated list\<close>

definition py_set :: "'a list \<Rightarrow> int \<Rightarrow> 'a \<Rightarrow> 'a list result" where
  "py_set xs i v =
     (let j = py_norm xs i
      in if 0 \<le> j \<and> j < int (length xs) then Inr (xs[nat j := v]) else Inl IndexError)"

text \<open>\<open>xs.index(v)\<close>: the first position holding \<open>v\<close>\<close>

definition py_index :: "'a list \<Rightarrow> 'a \<Rightarrow> nat result" where
  "py_index xs v =
     (if v \<in> set xs then Inr (length (takeWhile (\<lambda>y. y \<noteq> v) xs)) else Inl ValueError)"

text \<open>\<open>random.choice(xs)\<close> for the raw draw \<open>k\<close>\<close>

definition random_choice :: "'a list \<Rightarrow> nat \<Rightarrow> 'a result" where
  "random_choice xs k = (if xs = [] then Inl IndexError else Inr (xs ! (k mod length xs)))"

text \<open>\<open>str(n)\<close> for \<open>n \<ge> 0\<close>: the decimal digits, most significant first\<close>

fun py_str_nat :: "nat \<Rightarrow> string" where
  "py_str_nat n =
     (if n < 10 then [char_of (48 + n)] else py_str_nat (n div 10) @ [char_of (48 + n mod 10)])"

text \<open>\<open>str(i)\<close> for a Python int, as an f-string interpolates it\<close>

definition py_str_int :: "int \<Rightarrow> string" where
  "py_str_int i = (if i < 0 then ''-'' @ py_str_nat (nat (- i)) else py_str_nat (nat i))"

text \<open>Reading a decimal numeral back, as \<open>int(s)\<close> does on the strings \<open>str\<close> produces.\<close>

definition digits_val :: "string \<Rightarrow> nat" where
  "digits_val s = foldl (\<lambda>a c. 10 * a + (of_char c - 48)) 0 s"

definition read_int :: "string \<Rightarrow> int" where
  "read_int s =
     (case s of c # ds \<Rightarrow> if c = CHR ''-'' then - int (digits_val ds) else int (digits_val s)
              | [] \<Rightarrow> 0)"

subsection \<open>Error propagation\<close>

lemma bind_e_Inr [simp]: "bind_e (Inr a) f = f a"
  by (simp add: bind_e_def)

lemma bind_e_Inl [simp]: "bind_e (Inl e) f = Inl e"
  by (simp add: bind_e_def)

lemma bind_e_eq_Inr:
  "bind_e m f = Inr b \<longleftrightarrow> (\<exists>a. m = Inr a \<and> f a = Inr b)"
  by (cases m) simp_all

lemma bind_e_cong_Inr:
  "m = Inr a \<Longrightarrow> f a = r \<Longrightarrow> bind_e m f = r"
  by simp

lemma map_e_Inr:
  "(\<And>x. x \<in> set xs \<Longrightarrow> f x = Inr (g x)) \<Longrightarrow> map_e f xs = Inr (map g xs)"
  by (induction xs) simp_all

subsection \<open>List primitives at in-range indices\<close>

lemma py_get_nat [py_simps]:
  "n < length xs \<Longrightarrow> py_get xs (int n) = Inr (xs ! n)"
  by (simp add: py_get_def py_norm_def)

lemma py_get_int [py_simps]:
  "0 \<le> i \<Longrightarrow> i < int (length xs) \<Longrightarrow> py_get xs i = Inr (xs ! nat i)"
  by (simp add: py_get_def py_norm_def)

lemma py_set_nat [py_simps]:
  "n < length xs \<Longrightarrow> py_set xs (int n) v = Inr (xs[n := v])"
  by (simp add: py_set_def py_norm_def)

lemma py_set_int [py_simps]:
  "0 \<le> i \<Longrightarrow> i < int (length xs) \<Longrightarrow> py_set xs i v = Inr (xs[nat i := v])"
  by (simp add: py_set_def py_norm_def)

lemma py_get_zero [py_simps]: "xs \<noteq> [] \<Longrightarrow> py_get xs 0 = Inr (hd xs)"
  by (cases xs) (simp_all add: py_get_def py_norm_def)

lemma py_set_zero [py_simps]: "xs \<noteq> [] \<Longrightarrow> py_set xs 0 v = Inr (xs[0 := v])"
  by (cases xs) (simp_all add: py_set_def py_norm_def)

text \<open>A negative index within range addresses a position counted from the end.\<close>

lemma py_set_negative:
  "i < 0 \<Longrightarrow> 0 \<le> i + int (length xs) \<Longrightarrow>
   py_set xs i v = Inr (xs[nat (i + int (length xs)) := v])"
  by (simp add: py_set_def py_norm_def)

lemma py_index_nth [py_simps]:
  "distinct xs \<Longrightarrow> k < length xs \<Longrightarrow> py_index xs (xs ! k) = Inr k"
proof (induction xs arbitrary: k)
  case Nil
  then show ?case by simp
next
  case (Cons a xs)
  show ?case
  proof (cases k)
    case 0
    then show ?thesis by (simp add: py_index_def)
  next
    case (Suc k')
    with Cons.prems have "xs ! k' \<noteq> a" and "k' < length xs"
      by (auto simp: nth_mem)
    with Cons.IH [of k'] Cons.prems Suc show ?thesis
      by (auto simp: py_index_def split: if_splits)
  qed
qed

lemma random_choice_nth [py_simps]:
  "xs \<noteq> [] \<Longrightarrow> random_choice xs k = Inr (xs ! (k mod length xs))"
  by (simp add: random_choice_def)

subsection \<open>Decimal printing\<close>

declare py_str_nat.simps [simp del]

lemma of_char_digit: "(d::nat) < 10 \<Longrightarrow> of_char (char_of (48 + d) :: char) = 48 + d"
  by simp

lemma digits_val_snoc: "digits_val (s @ [c]) = 10 * digits_val s + (of_char c - 48)"
  by (simp add: digits_val_def)

lemma digits_val_py_str_nat: "digits_val (py_str_nat n) = n"
proof (induction n rule: py_str_nat.induct)
  case (1 n)
  show ?case
  proof (cases "n < 10")
    case True
    then show ?thesis by (subst py_str_nat.simps) (simp add: digits_val_def of_char_digit)
  next
    case False
    then have "digits_val (py_str_nat n) = 10 * (n div 10) + n mod 10"
      using "1.IH" by (subst py_str_nat.simps) (simp add: digits_val_snoc of_char_digit)
    then show ?thesis by simp
  qed
qed

lemma py_str_nat_digits:
  "c \<in> set (py_str_nat n) \<Longrightarrow> 48 \<le> (of_char c :: nat) \<and> (of_char c :: nat) < 58"
proof (induction n rule: py_str_nat.induct)
  case (1 n)
  then show ?case
    by (subst (asm) py_str_nat.simps) (auto split: if_splits simp: of_char_digit)
qed

lemma py_str_nat_Cons: "\<exists>c cs. py_str_nat n = c # cs \<and> c \<noteq> CHR ''-''"
proof -
  have "py_str_nat n \<noteq> []" by (subst py_str_nat.simps) simp
  then obtain c cs where e: "py_str_nat n = c # cs" by (cases "py_str_nat n") auto
  then have "48 \<le> (of_char c :: nat)" using py_str_nat_digits [of c n] by simp
  then have "c \<noteq> CHR ''-''" by auto
  with e show ?thesis by blast
qed

lemma read_py_str_int: "read_int (py_str_int i) = i"
proof (cases "i < 0")
  case True
  then show ?thesis by (simp add: py_str_int_def read_int_def digits_val_py_str_nat)
next
  case False
  obtain c cs where e: "py_str_nat (nat i) = c # cs" and c: "c \<noteq> CHR ''-''"
    using py_str_nat_Cons by blast
  have "read_int (py_str_nat (nat i)) = int (digits_val (py_str_nat (nat i)))"
    using e c by (simp add: read_int_def)
  with False show ?thesis by (simp add: py_str_int_def digits_val_py_str_nat)
qed

end
