(* ===== verification/Pieces.thy ===== *)
theory Pieces
  imports Prelude
begin

text \<open>
  The configuration of \<open>src/tetris.py\<close> (lines 7--49: the colour table, the
  grid dimensions and the seven tetromino matrices), the piece dictionary built
  by \<open>Tetris.new_piece\<close> (lines 64--73) and the matrix comprehension of
  \<open>Tetris.rotate_piece\<close> (lines 125--128).  A shape is a list of rows of 0/1
  integers, as in the source; a cell is occupied when it is non-zero (Python
  truthiness).  The abstract rotation \<open>rot\<close> and the list \<open>cells\<close> of occupied
  offsets are the specification-level views used by the other theories.
\<close>

type_synonym color = "nat \<times> nat \<times> nat"
type_synonym shape = "int list list"

definition GRID_WIDTH :: int where "GRID_WIDTH = 10"
definition GRID_HEIGHT :: int where "GRID_HEIGHT = 20"

definition COLORS :: "color list" where
  "COLORS = [(0, 255, 255), (0, 0, 255), (255, 165, 0), (255, 255, 0),
             (0, 255, 0), (128, 0, 128), (255, 0, 0)]"

definition SHAPES :: "shape list" where
  "SHAPES =
     [[[1, 1, 1, 1]],
      [[1, 0, 0], [1, 1, 1]],
      [[0, 0, 1], [1, 1, 1]],
      [[1, 1], [1, 1]],
      [[0, 1, 1], [1, 1, 0]],
      [[0, 1, 0], [1, 1, 1]],
      [[1, 1, 0], [0, 1, 1]]]"

text \<open>The piece dictionary \<open>{"shape", "color", "x", "y"}\<close>.\<close>

record piece =
  piece_shape :: shape
  piece_color :: color
  piece_x :: int
  piece_y :: int

text \<open>
  \<open>new_piece\<close>: \<open>random.choice(SHAPES)\<close> consumes one draw of the generator,
  \<open>SHAPES.index(shape)\<close> selects the colour, and the piece starts centred in
  row 0.  The remaining generator stream is returned with the piece.
\<close>

definition new_piece :: "nat stream \<Rightarrow> (piece \<times> nat stream) result" where
  "new_piece rs =
     bind_e (random_choice SHAPES (shd rs)) (\<lambda>shape.
     bind_e (py_index SHAPES shape) (\<lambda>i.
     bind_e (py_get COLORS (int i)) (\<lambda>color.
     bind_e (py_get shape 0) (\<lambda>row0.
       let x = GRID_WIDTH div 2 - int (length row0) div 2;
           y = 0
       in Inr (\<lparr>piece_shape = shape, piece_color = color, piece_x = x, piece_y = y\<rparr>,
               stl rs)))))"

text \<open>
  The comprehension
  \<open>[[shape[x][y] for x in range(len(shape))] for y in range(len(shape[0])-1, -1, -1)]\<close>
  with Python's subscripts (an empty shape or a ragged row raises IndexError).
\<close>

definition rotated_shape :: "shape \<Rightarrow> shape result" where
  "rotated_shape s =
     bind_e (py_get s 0) (\<lambda>row0.
       map_e (\<lambda>yy. map_e (\<lambda>xx. bind_e (py_get s (int xx)) (\<lambda>row. py_get row (int yy)))
                          [0..<length s])
             (rev [0..<length row0]))"

subsection \<open>Specification-level view of shapes\<close>

definition rectangular :: "'a list list \<Rightarrow> bool" where
  "rectangular s =
     (case s of [] \<Rightarrow> False | r0 # rs \<Rightarrow> r0 \<noteq> [] \<and> list_all (\<lambda>r. length r = length r0) rs)"

text \<open>The rotation as a matrix operation: column \<open>j\<close>, read top to bottom, becomes
  row \<open>w - 1 - j\<close> (transpose, then reverse the rows).\<close>

definition rot :: "'a list list \<Rightarrow> 'a list list" where
  "rot s = map (\<lambda>j. map (\<lambda>row. row ! j) s) (rev [0..<length (hd s)])"

text \<open>Occupied offsets \<open>(x, y)\<close> of a shape, in the order of the source's nested
  \<open>enumerate\<close> loops.\<close>

definition cells :: "shape \<Rightarrow> (nat \<times> nat) list" where
  "cells s =
     concat (map (\<lambda>(yy, row). map (\<lambda>(xx, c). (xx, yy)) (filter (\<lambda>(xx, c). c \<noteq> 0) (enumerate 0 row)))
                 (enumerate 0 s))"

text \<open>The piece \<open>new_piece\<close> returns when the generator selects shape \<open>k\<close>.\<close>

definition spawn :: "nat \<Rightarrow> piece" where
  "spawn k = \<lparr>piece_shape = SHAPES ! k, piece_color = COLORS ! k,
              piece_x = GRID_WIDTH div 2 - int (length (hd (SHAPES ! k))) div 2, piece_y = 0\<rparr>"

text \<open>Every orientation a piece can take: each spawn shape and its three rotations.\<close>

definition orientations :: "shape list" where
  "orientations = concat (map (\<lambda>s. [s, rot s, rot (rot s), rot (rot (rot s))]) SHAPES)"

subsection \<open>Rectangular matrices and the rotation\<close>

lemma rectangularD:
  assumes "rectangular s"
  shows rectangular_ne: "s \<noteq> []" and rectangular_hd_ne: "hd s \<noteq> []"
    and rectangular_row: "i < length s \<Longrightarrow> length (s ! i) = length (hd s)"
  using assms by (auto simp: rectangular_def list_all_length nth_Cons' split: list.splits)

lemma rectangularI:
  assumes "s \<noteq> []" "hd s \<noteq> []" "\<And>i. i < length s \<Longrightarrow> length (s ! i) = length (hd s)"
  shows "rectangular s"
proof (cases s)
  case Nil
  with assms(1) show ?thesis by simp
next
  case (Cons r0 rs)
  have "list_all (\<lambda>r. length r = length r0) rs"
  proof (unfold list_all_length, intro allI impI)
    fix i assume "i < length rs"
    with assms(3) [of "Suc i"] Cons show "length (rs ! i) = length r0" by simp
  qed
  with assms(2) Cons show ?thesis by (simp add: rectangular_def)
qed

lemma length_rot [simp]: "length (rot s) = length (hd s)"
  by (simp add: rot_def)

lemma rot_nth:
  "j < length (hd s) \<Longrightarrow> rot s ! j = map (\<lambda>row. row ! (length (hd s) - Suc j)) s"
  by (simp add: rot_def rev_nth)

lemma hd_rot:
  "hd s \<noteq> [] \<Longrightarrow> hd (rot s) = map (\<lambda>row. row ! (length (hd s) - 1)) s"
  by (simp add: rot_def hd_map hd_rev)

lemma rectangular_rot:
  assumes "rectangular s"
  shows "rectangular (rot s)"
proof (rule rectangularI)
  have ne: "s \<noteq> []" "hd s \<noteq> []" using assms by (rule rectangularD)+
  then show "rot s \<noteq> []" by (simp add: rot_def)
  show "hd (rot s) \<noteq> []" using ne by (simp add: hd_rot)
  fix i assume "i < length (rot s)"
  then show "length (rot s ! i) = length (hd (rot s))"
    using ne by (simp add: rot_nth hd_rot)
qed

lemma rot_rot:
  assumes "rectangular s"
  shows "rot (rot s) = rev (map rev s)"
proof (rule nth_equalityI)
  have ne: "s \<noteq> []" "hd s \<noteq> []" using assms by (rule rectangularD)+
  have len1: "length (hd (rot s)) = length s" using ne by (simp add: hd_rot)
  show "length (rot (rot s)) = length (rev (map rev s))"
    using len1 by simp
  fix a assume "a < length (rot (rot s))"
  then have a: "a < length s" using len1 by simp
  let ?row = "s ! (length s - Suc a)"
  have row_len: "length ?row = length (hd s)"
    using a by (simp add: rectangular_row [OF assms])
  have "rot (rot s) ! a = map (\<lambda>r. r ! (length s - Suc a)) (rot s)"
    using a len1 by (simp add: rot_nth)
  also have "\<dots> = rev ?row"
  proof (rule nth_equalityI)
    show "length (map (\<lambda>r. r ! (length s - Suc a)) (rot s)) = length (rev ?row)"
      using row_len by simp
    fix b assume "b < length (map (\<lambda>r. r ! (length s - Suc a)) (rot s))"
    then have b: "b < length (hd s)" by simp
    then show "map (\<lambda>r. r ! (length s - Suc a)) (rot s) ! b = rev ?row ! b"
      using a row_len by (simp add: rot_nth rev_nth)
  qed
  also have "\<dots> = rev (map rev s) ! a"
    using a by (simp add: rev_nth)
  finally show "rot (rot s) ! a = rev (map rev s) ! a" .
qed

lemma rectangular_rev_map_rev:
  assumes "rectangular s"
  shows "rectangular (rev (map rev s))"
  by (metis assms rectangular_rot rot_rot)

lemma rot4:
  assumes "rectangular s"
  shows "rot (rot (rot (rot s))) = s"
proof -
  have "rectangular (rot (rot s))" using assms by (simp add: rectangular_rot)
  then have "rot (rot (rot (rot s))) = rev (map rev (rot (rot s)))" by (rule rot_rot)
  also have "\<dots> = s" using assms by (simp add: rot_rot rev_map)
  finally show ?thesis .
qed

lemma rotated_shape_rot:
  assumes "rectangular s"
  shows "rotated_shape s = Inr (rot s)"
proof -
  have ne: "s \<noteq> []" using assms by (rule rectangularD)
  have col: "map_e (\<lambda>xx. bind_e (py_get s (int xx)) (\<lambda>row. py_get row (int yy))) [0..<length s] =
     Inr (map (\<lambda>row. row ! yy) s)" if yy: "yy < length (hd s)" for yy
  proof -
    have "map_e (\<lambda>xx. bind_e (py_get s (int xx)) (\<lambda>row. py_get row (int yy))) [0..<length s] =
          Inr (map (\<lambda>xx. s ! xx ! yy) [0..<length s])"
      by (rule map_e_Inr) (simp add: py_get_nat rectangular_row [OF assms] yy)
    also have "map (\<lambda>xx. s ! xx ! yy) [0..<length s] = map (\<lambda>row. row ! yy) s"
      by (rule nth_equalityI) simp_all
    finally show ?thesis .
  qed
  have "rotated_shape s =
        map_e (\<lambda>yy. map_e (\<lambda>xx. bind_e (py_get s (int xx)) (\<lambda>row. py_get row (int yy)))
                   [0..<length s]) (rev [0..<length (hd s)])"
    using ne by (simp add: rotated_shape_def py_get_zero)
  also have "\<dots> = Inr (rot s)"
    unfolding rot_def by (rule map_e_Inr) (simp add: col)
  finally show ?thesis .
qed

subsection \<open>The seven shapes and their orientations\<close>

lemma in_cells:
  "(xx, yy) \<in> set (cells s) \<longleftrightarrow> yy < length s \<and> xx < length (s ! yy) \<and> s ! yy ! xx \<noteq> 0"
  by (auto simp: cells_def in_set_enumerate_eq
      intro!: bexI [of _ "(yy, s ! yy)"] image_eqI [of _ _ "(xx, s ! yy ! xx)"])

lemma list_all_enumerate_cells:
  "list_all (\<lambda>(yy, row). list_all (\<lambda>(xx, c). c \<noteq> 0 \<longrightarrow> P xx yy) (enumerate 0 row)) (enumerate 0 s) \<longleftrightarrow>
   (\<forall>(xx, yy) \<in> set (cells s). P xx yy)"
proof -
  have "list_all (\<lambda>(yy, row). list_all (\<lambda>(xx, c). c \<noteq> 0 \<longrightarrow> P xx yy) (enumerate 0 row)) (enumerate 0 s) \<longleftrightarrow>
        (\<forall>yy<length s. \<forall>xx<length (s ! yy). s ! yy ! xx \<noteq> 0 \<longrightarrow> P xx yy)"
    by (fastforce simp: list_all_iff in_set_enumerate_eq)
  also have "\<dots> \<longleftrightarrow> (\<forall>(xx, yy) \<in> set (cells s). P xx yy)"
    by (auto simp: in_cells)
  finally show ?thesis .
qed
lemma distinct_SHAPES: "distinct SHAPES"
  by (simp add: SHAPES_def)

lemma length_SHAPES [simp]: "length SHAPES = 7"
  by (simp add: SHAPES_def)

lemma length_COLORS [simp]: "length COLORS = 7"
  by (simp add: COLORS_def)

lemma SHAPES_ne: "k < 7 \<Longrightarrow> SHAPES ! k \<noteq> []"
  by (simp add: SHAPES_def less_Suc_eq nth_Cons')

lemma new_piece_eq:
  "new_piece rs = Inr (spawn (shd rs mod 7), stl rs)"
proof -
  let ?k = "shd rs mod 7"
  have k: "?k < 7" by simp
  have "SHAPES \<noteq> []" by (simp add: SHAPES_def)
  then have "random_choice SHAPES (shd rs) = Inr (SHAPES ! ?k)"
    by (simp add: py_simps)
  moreover have "py_index SHAPES (SHAPES ! ?k) = Inr ?k"
    using k by (simp add: py_index_nth distinct_SHAPES)
  moreover have "py_get COLORS (int ?k) = Inr (COLORS ! ?k)"
    using k by (simp add: py_get_nat)
  moreover have "py_get (SHAPES ! ?k) 0 = Inr (hd (SHAPES ! ?k))"
    using SHAPES_ne [OF k] by (rule py_get_zero)
  ultimately show ?thesis by (simp add: new_piece_def spawn_def)
qed

lemma SHAPES_orientations: "k < 7 \<Longrightarrow> SHAPES ! k \<in> set orientations"
  by (simp add: orientations_def SHAPES_def less_Suc_eq nth_Cons')

text \<open>The orientations are closed under rotation and all have four cells in at
  most four rows: facts about finitely many concrete matrices, checked by evaluation.\<close>

lemma orientations_rect: "list_all rectangular orientations"
  by (simp add: orientations_def SHAPES_def rot_def rectangular_def)
lemma orientations_cells: "list_all (\<lambda>s. length (cells s) = 4 \<and> length s \<le> 4) orientations"
  by (simp add: orientations_def SHAPES_def rot_def cells_def)
lemma orientations_closed: "list_all (\<lambda>s. rot s \<in> set orientations) orientations"
  by code_simp
lemma orientation_facts:
  assumes "s \<in> set orientations"
  shows orientation_rectangular: "rectangular s"
    and orientation_cells: "length (cells s) = 4"
    and orientation_height: "length s \<le> 4"
    and orientation_rot: "rot s \<in> set orientations"
  using assms orientations_rect orientations_cells orientations_closed
  by (auto simp: list_all_iff)

end
