(* ===== verification/Grid.thy ===== *)
theory Grid
  imports Pieces
begin

text \<open>
  The playfield of \<open>src/tetris.py\<close>: \<open>self.grid\<close>, a list of \<open>GRID_HEIGHT\<close> rows of
  \<open>GRID_WIDTH\<close> cells, row 0 at the top; a cell holds \<open>0\<close> (here \<open>None\<close>) or a
  colour tuple (here \<open>Some c\<close>; every colour tuple is truthy).  Rows are never
  aliased in the source (every row assignment stores a fresh list: the
  comprehension of line 59, the copy \<open>self.grid[y2-1][:]\<close> of line 111 and the new
  row of line 112), so a list of row values models the grid faithfully.

  The loop of \<open>Tetris.clear_lines\<close> (lines 104--112) is \<open>clear_rows\<close>, with its
  inner shift \<open>for y2 in range(y, 0, -1)\<close> as \<open>shift_rows\<close>.  Its specification
  \<open>clear_ref\<close> removes every full row and pads the grid with empty rows at the top;
  the main theorem of this theory is that the single in-place top-to-bottom pass
  computes exactly that, together with the number of rows removed.
\<close>

type_synonym cell = "color option"
type_synonym grid = "cell list list"

text \<open>\<open>[0 for _ in range(GRID_WIDTH)]\<close>\<close>

definition empty_row :: "cell list" where
  "empty_row = replicate (nat GRID_WIDTH) None"

text \<open>The grid built by \<open>Tetris.__init__\<close>\<close>

definition empty_grid :: grid where
  "empty_grid = replicate (nat GRID_HEIGHT) empty_row"

text \<open>\<open>all(row)\<close>: every cell truthy\<close>

definition row_full :: "cell list \<Rightarrow> bool" where
  "row_full r = list_all (\<lambda>c. c \<noteq> None) r"

text \<open>\<open>for y2 in range(y, 0, -1): self.grid[y2] = self.grid[y2-1][:]\<close>\<close>

fun shift_rows :: "grid \<Rightarrow> nat \<Rightarrow> grid result" where
  "shift_rows g 0 = Inr g"
| "shift_rows g (Suc y2) =
     bind_e (py_get g (int y2)) (\<lambda>row.
     bind_e (py_set g (int (Suc y2)) row) (\<lambda>g'. shift_rows g' y2))"

text \<open>The \<open>for y in range(GRID_HEIGHT)\<close> loop, with the counter \<open>lines_cleared\<close>.\<close>

fun clear_rows :: "grid \<Rightarrow> nat list \<Rightarrow> nat \<Rightarrow> (grid \<times> nat) result" where
  "clear_rows g [] n = Inr (g, n)"
| "clear_rows g (y # ys) n =
     bind_e (py_get g (int y)) (\<lambda>row.
       if row_full row then
         bind_e (shift_rows g y) (\<lambda>g1.
         bind_e (py_set g1 0 empty_row) (\<lambda>g2. clear_rows g2 ys (Suc n)))
       else clear_rows g ys n)"

subsection \<open>Specification\<close>

definition wf_grid :: "grid \<Rightarrow> bool" where
  "wf_grid g \<longleftrightarrow> length g = nat GRID_HEIGHT \<and> list_all (\<lambda>r. length r = nat GRID_WIDTH) g"

definition no_full_rows :: "grid \<Rightarrow> bool" where
  "no_full_rows g \<longleftrightarrow> list_all (\<lambda>r. \<not> row_full r) g"

definition count_full :: "grid \<Rightarrow> nat" where
  "count_full g = length (filter row_full g)"

text \<open>Remove the full rows, keep the others in order, pad with empty rows on top.\<close>

definition clear_ref :: "grid \<Rightarrow> grid" where
  "clear_ref g =
     (let kept = filter (\<lambda>r. \<not> row_full r) g
      in replicate (length g - length kept) empty_row @ kept)"

text \<open>The cells' type: empty, or one of the seven piece colours.\<close>

definition colour_ok :: "cell \<Rightarrow> bool" where
  "colour_ok c = (case c of None \<Rightarrow> True | Some col \<Rightarrow> col \<in> set COLORS)"

definition grid_colours :: "grid \<Rightarrow> bool" where
  "grid_colours g = list_all (list_all colour_ok) g"

subsection \<open>Basic facts\<close>

lemma empty_row_not_full [simp]: "\<not> row_full empty_row"
  by (simp add: empty_row_def row_full_def GRID_WIDTH_def list_all_iff)

lemma length_empty_row [simp]: "length empty_row = nat GRID_WIDTH"
  by (simp add: empty_row_def)

lemma wf_grid_nth:
  "wf_grid g \<longleftrightarrow> length g = nat GRID_HEIGHT \<and> (\<forall>i<length g. length (g ! i) = nat GRID_WIDTH)"
  by (simp add: wf_grid_def list_all_length)

lemma wf_empty_grid: "wf_grid empty_grid"
  by (simp add: wf_grid_def empty_grid_def list_all_iff)

lemma count_full_append [simp]: "count_full (xs @ ys) = count_full xs + count_full ys"
  by (simp add: count_full_def)

lemma count_full_Cons [simp]:
  "count_full (r # rs) = (if row_full r then Suc (count_full rs) else count_full rs)"
  by (simp add: count_full_def)

lemma count_full_le: "count_full g \<le> length g"
  by (simp add: count_full_def)

lemma no_full_rows_clear_ref_id: "no_full_rows g \<Longrightarrow> clear_ref g = g"
  by (simp add: clear_ref_def no_full_rows_def list_all_iff)

lemma no_full_rows_count: "no_full_rows g \<Longrightarrow> count_full g = 0"
  by (simp add: count_full_def no_full_rows_def list_all_iff filter_empty_conv)

lemma grid_colours_empty_grid: "grid_colours empty_grid"
  by (simp add: grid_colours_def empty_grid_def empty_row_def colour_ok_def list_all_iff)

lemma grid_colours_clear_ref: "grid_colours g \<Longrightarrow> grid_colours (clear_ref g)"
  by (auto simp: grid_colours_def clear_ref_def Let_def list_all_iff empty_row_def colour_ok_def)

subsection \<open>The shift of the rows above a full row\<close>

lemma shift_rows_eq:
  "y < length g \<Longrightarrow> shift_rows g y = Inr (g ! 0 # take y g @ drop (Suc y) g)"
proof (induction y arbitrary: g)
  case 0
  then show ?case by (cases g) simp_all
next
  case (Suc k)
  let ?g' = "g[Suc k := g ! k]"
  have "shift_rows g (Suc k) = shift_rows ?g' k"
    using Suc.prems by (simp add: py_simps del: of_nat_Suc)
  also have "\<dots> = Inr (?g' ! 0 # take k ?g' @ drop (Suc k) ?g')"
    using Suc.prems by (intro Suc.IH) simp
  also have "?g' ! 0 # take k ?g' @ drop (Suc k) ?g' =
             g ! 0 # take (Suc k) g @ drop (Suc (Suc k)) g"
    using Suc.prems by (simp add: take_Suc_conv_app_nth Cons_nth_drop_Suc [symmetric])
  finally show ?case .
qed

lemma replicate_Cons_shift: "replicate m x @ x # xs = replicate (Suc m) x @ xs"
  by (simp add: replicate_app_Cons_same)

lemma clear_ref_shift:
  assumes y: "y < length g" and full: "row_full (g ! y)"
  shows "clear_ref (empty_row # take y g @ drop (Suc y) g) = clear_ref g"
proof -
  let ?nf = "\<lambda>r. \<not> row_full r"
  let ?A = "filter ?nf (take y g)" and ?B = "filter ?nf (drop (Suc y) g)"
  have "g = take y g @ g ! y # drop (Suc y) g"
    using y by (simp add: id_take_nth_drop)
  then have kept: "filter ?nf g = ?A @ ?B"
    using full by (metis filter.simps(2) filter_append)
  have "length ?A \<le> y"
    using length_filter_le [of ?nf "take y g"] y by simp
  moreover have "length ?B \<le> length g - Suc y"
    by (metis length_filter_le length_drop)
  ultimately have lt: "length ?A + length ?B < length g"
    using y by arith
  have "clear_ref (empty_row # take y g @ drop (Suc y) g) =
        replicate (length g - Suc (length ?A + length ?B)) empty_row @ empty_row # ?A @ ?B"
    using y by (simp add: clear_ref_def Let_def)
  also have "\<dots> = replicate (length g - (length ?A + length ?B)) empty_row @ ?A @ ?B"
    using lt by (simp add: replicate_Cons_shift Suc_diff_Suc)
  also have "\<dots> = clear_ref g"
    by (simp add: clear_ref_def kept)
  finally show ?thesis .
qed

text \<open>The loop invariant of \<open>clear_rows\<close>: the rows above the current index are not
  full, and the reference result and the number of full rows still to come do not
  change when a full row is removed.\<close>

lemma clear_rows_from:
  "y \<le> length g \<Longrightarrow> list_all (\<lambda>r. \<not> row_full r) (take y g) \<Longrightarrow>
   clear_rows g [y..<length g] n = Inr (clear_ref g, n + count_full (drop y g))"
proof (induction "length g - y" arbitrary: g y n)
  case 0
  then have "y = length g" by simp
  with "0.prems" show ?case
    by (simp add: no_full_rows_clear_ref_id no_full_rows_def count_full_def)
next
  case (Suc d)
  then have y: "y < length g" by simp
  have upt: "[y..<length g] = y # [Suc y..<length g]"
    using y by (rule upt_conv_Cons)
  have drop_y: "drop y g = g ! y # drop (Suc y) g"
    using y by (rule Cons_nth_drop_Suc [symmetric])
  show ?case
  proof (cases "row_full (g ! y)")
    case True
    let ?g2 = "empty_row # take y g @ drop (Suc y) g"
    have len2: "length ?g2 = length g" using y by simp
    have step: "clear_rows g [y..<length g] n = clear_rows ?g2 [Suc y..<length ?g2] (Suc n)"
      using y True len2 by (simp add: upt py_simps shift_rows_eq take_Suc_conv_app_nth)
    have "clear_rows ?g2 [Suc y..<length ?g2] (Suc n) =
          Inr (clear_ref ?g2, Suc n + count_full (drop (Suc y) ?g2))"
    proof (rule Suc.hyps)
      show "d = length ?g2 - Suc y" using Suc.hyps(2) len2 by simp
      show "Suc y \<le> length ?g2" using y len2 by simp
      show "list_all (\<lambda>r. \<not> row_full r) (take (Suc y) ?g2)"
        using Suc.prems(2) y by simp
    qed
    moreover have "drop (Suc y) ?g2 = drop (Suc y) g" using y by simp
    ultimately show ?thesis
      using step True drop_y by (simp add: clear_ref_shift y)
  next
    case False
    have step: "clear_rows g [y..<length g] n = clear_rows g [Suc y..<length g] n"
      using y False by (simp add: upt py_simps)
    have "clear_rows g [Suc y..<length g] n = Inr (clear_ref g, n + count_full (drop (Suc y) g))"
    proof (rule Suc.hyps)
      show "d = length g - Suc y" using Suc.hyps(2) by simp
      show "Suc y \<le> length g" using y by simp
      show "list_all (\<lambda>r. \<not> row_full r) (take (Suc y) g)"
        using Suc.prems(2) y False by (simp add: take_Suc_conv_app_nth)
    qed
    with step False drop_y show ?thesis by simp
  qed
qed

lemma length_clear_ref [simp]: "length (clear_ref g) = length g"
  by (simp add: clear_ref_def Let_def)

lemma count_full_kept: "count_full g + length (filter (\<lambda>r. \<not> row_full r) g) = length g"
  by (simp add: count_full_def sum_length_filter_compl)

lemma clear_ref_parts:
  "clear_ref g = replicate (count_full g) empty_row @ filter (\<lambda>r. \<not> row_full r) g"
  using count_full_kept [of g] by (simp add: clear_ref_def Let_def)

lemma wf_clear_ref: "wf_grid g \<Longrightarrow> wf_grid (clear_ref g)"
  using count_full_kept [of g] by (auto simp: wf_grid_def clear_ref_parts list_all_iff)

lemma no_full_rows_clear_ref: "no_full_rows (clear_ref g)"
  by (auto simp: no_full_rows_def clear_ref_parts list_all_iff)

subsection \<open>Correctness of the single pass\<close>

text \<open>C3: the in-place, single top-to-bottom pass of \<open>clear_lines\<close> over a grid of the
  configured size returns exactly the reference result, removing every full row
  (also rows that reach a position already visited after a shift), together with the
  number of full rows of the input as \<open>lines_cleared\<close>.\<close>

theorem clear_rows_correct:
  assumes "wf_grid g"
  shows "clear_rows g [0..<nat GRID_HEIGHT] 0 = Inr (clear_ref g, count_full g)"
proof -
  have "length g = nat GRID_HEIGHT" using assms by (simp add: wf_grid_def)
  then show ?thesis using clear_rows_from [of 0 g 0] by simp
qed

theorem clear_rows_correct_witness:
  "wf_grid (replicate 19 empty_row @ [replicate 10 (Some (255, 0, 0))]) \<and>
   clear_rows (replicate 19 empty_row @ [replicate 10 (Some (255, 0, 0))]) [0..<nat GRID_HEIGHT] 0 =
   Inr (empty_grid, 1)"
proof -
  let ?g = "replicate 19 empty_row @ [replicate 10 (Some (255, 0, 0))]"
  have wf: "wf_grid ?g"
    by (simp add: wf_grid_def GRID_HEIGHT_def GRID_WIDTH_def empty_row_def list_all_iff)
  have "clear_ref ?g = empty_grid \<and> count_full ?g = 1"
    by code_simp
  with wf clear_rows_correct [OF wf] show ?thesis by simp
qed

end
