(* ===== verification/Placement.thy ===== *)
theory Placement
  imports Grid
begin

text \<open>
  Where a piece meets the grid.  \<open>valid_move\<close> is \<open>Tetris.valid_move\<close>
  (lines 75--86): the nested loops over the shape's rows and cells, the bounds test
  and the occupancy read of lines 82--84 (\<open>blocked\<close>), returning False at the first
  blocked cell.  \<open>lock_cells\<close> is the writing loop of \<open>Tetris.lock_piece\<close>
  (lines 89--92), with Python's subscript semantics: a negative row index wraps to
  the bottom of the grid, an index past the end raises IndexError.

  Their specifications: \<open>fits\<close> (every occupied cell of the displaced piece is
  inside the walls, above the floor, and on a free cell when it is on the grid) and
  \<open>place\<close> (colour every cell the piece covers).  The refinement lemmas show that on a
  well-formed grid the code computes them and never raises.
\<close>

text \<open>Lines 82--84: \<open>new_x < 0 or new_x >= GRID_WIDTH or new_y >= GRID_HEIGHT or
  (new_y >= 0 and self.grid[new_y][new_x])\<close>, short-circuit.\<close>

definition blocked :: "grid \<Rightarrow> int \<Rightarrow> int \<Rightarrow> bool result" where
  "blocked g new_x new_y =
     (if new_x < 0 \<or> new_x \<ge> GRID_WIDTH \<or> new_y \<ge> GRID_HEIGHT then Inr True
      else if new_y \<ge> 0 then
        bind_e (py_get g new_y) (\<lambda>row. bind_e (py_get row new_x) (\<lambda>c. Inr (c \<noteq> None)))
      else Inr False)"

text \<open>The inner loop \<open>for x, cell in enumerate(row)\<close>: \<open>Inr False\<close> is the early
  \<open>return False\<close>.\<close>

fun valid_row :: "grid \<Rightarrow> piece \<Rightarrow> int \<Rightarrow> int \<Rightarrow> nat \<Rightarrow> (nat \<times> int) list \<Rightarrow> bool result" where
  "valid_row g p dx dy yy [] = Inr True"
| "valid_row g p dx dy yy ((xx, c) # cs) =
     (if c \<noteq> 0 then
        bind_e (blocked g (piece_x p + int xx + dx) (piece_y p + int yy + dy)) (\<lambda>b.
          if b then Inr False else valid_row g p dx dy yy cs)
      else valid_row g p dx dy yy cs)"

text \<open>The outer loop \<open>for y, row in enumerate(piece["shape"])\<close>.\<close>

fun valid_rows :: "grid \<Rightarrow> piece \<Rightarrow> int \<Rightarrow> int \<Rightarrow> (nat \<times> int list) list \<Rightarrow> bool result" where
  "valid_rows g p dx dy [] = Inr True"
| "valid_rows g p dx dy ((yy, row) # rs) =
     bind_e (valid_row g p dx dy yy (enumerate 0 row)) (\<lambda>ok.
       if ok then valid_rows g p dx dy rs else Inr False)"

definition valid_move :: "grid \<Rightarrow> piece \<Rightarrow> int \<Rightarrow> int \<Rightarrow> bool result" where
  "valid_move g p dx dy = valid_rows g p dx dy (enumerate 0 (piece_shape p))"

text \<open>Line 92: \<open>self.grid[piece["y"] + y][piece["x"] + x] = piece["color"]\<close>: the row
  is fetched, updated in place, and stays in the grid.\<close>

fun lock_row :: "grid \<Rightarrow> piece \<Rightarrow> nat \<Rightarrow> (nat \<times> int) list \<Rightarrow> grid result" where
  "lock_row g p yy [] = Inr g"
| "lock_row g p yy ((xx, c) # cs) =
     (if c \<noteq> 0 then
        bind_e (py_get g (piece_y p + int yy)) (\<lambda>row.
        bind_e (py_set row (piece_x p + int xx) (Some (piece_color p))) (\<lambda>row'.
        bind_e (py_set g (piece_y p + int yy) row') (\<lambda>g'. lock_row g' p yy cs)))
      else lock_row g p yy cs)"

fun lock_rows :: "grid \<Rightarrow> piece \<Rightarrow> (nat \<times> int list) list \<Rightarrow> grid result" where
  "lock_rows g p [] = Inr g"
| "lock_rows g p ((yy, row) # rs) = bind_e (lock_row g p yy (enumerate 0 row)) (\<lambda>g'. lock_rows g' p rs)"

definition lock_cells :: "grid \<Rightarrow> piece \<Rightarrow> grid result" where
  "lock_cells g p = lock_rows g p (enumerate 0 (piece_shape p))"

subsection \<open>Specification\<close>

text \<open>The grid coordinates of the piece's occupied cells.\<close>

definition piece_cells :: "piece \<Rightarrow> (int \<times> int) list" where
  "piece_cells p = map (\<lambda>(xx, yy). (piece_x p + int xx, piece_y p + int yy)) (cells (piece_shape p))"

definition cell_free :: "grid \<Rightarrow> int \<Rightarrow> int \<Rightarrow> bool" where
  "cell_free g cx cy \<longleftrightarrow>
     0 \<le> cx \<and> cx < GRID_WIDTH \<and> cy < GRID_HEIGHT \<and> (cy < 0 \<or> g ! nat cy ! nat cx = None)"

definition fits :: "grid \<Rightarrow> piece \<Rightarrow> int \<Rightarrow> int \<Rightarrow> bool" where
  "fits g p dx dy \<longleftrightarrow> list_all (\<lambda>(cx, cy). cell_free g (cx + dx) (cy + dy)) (piece_cells p)"

definition on_grid :: "int \<times> int \<Rightarrow> bool" where
  "on_grid = (\<lambda>(cx, cy). 0 \<le> cx \<and> cx < GRID_WIDTH \<and> 0 \<le> cy \<and> cy < GRID_HEIGHT)"

definition set_cell :: "color \<Rightarrow> grid \<Rightarrow> int \<times> int \<Rightarrow> grid" where
  "set_cell col g = (\<lambda>(cx, cy). g[nat cy := (g ! nat cy)[nat cx := Some col]])"

definition place :: "grid \<Rightarrow> piece \<Rightarrow> grid" where
  "place g p = foldl (set_cell (piece_color p)) g (piece_cells p)"

subsection \<open>The collision check\<close>

lemma blocked_eq:
  "wf_grid g \<Longrightarrow> blocked g cx cy = Inr (\<not> cell_free g cx cy)"
  by (auto simp: blocked_def cell_free_def wf_grid_def list_all_iff py_simps nth_mem)

lemma valid_row_eq:
  "wf_grid g \<Longrightarrow> valid_row g p dx dy yy cs =
     Inr (list_all (\<lambda>(xx, c). c \<noteq> 0 \<longrightarrow>
            cell_free g (piece_x p + int xx + dx) (piece_y p + int yy + dy)) cs)"
proof (induction cs)
  case (Cons a cs)
  then show ?case by (cases a) (simp add: blocked_eq)
qed simp

lemma valid_rows_eq:
  "wf_grid g \<Longrightarrow> valid_rows g p dx dy rs =
     Inr (list_all (\<lambda>(yy, row). list_all (\<lambda>(xx, c). c \<noteq> 0 \<longrightarrow>
            cell_free g (piece_x p + int xx + dx) (piece_y p + int yy + dy)) (enumerate 0 row)) rs)"
proof (induction rs)
  case (Cons a rs)
  then show ?case by (cases a) (simp add: valid_row_eq)
qed simp

lemma fits_iff:
  "fits g p dx dy \<longleftrightarrow>
     (\<forall>(xx, yy) \<in> set (cells (piece_shape p)).
        cell_free g (piece_x p + int xx + dx) (piece_y p + int yy + dy))"
  by (auto simp: fits_def piece_cells_def list_all_iff)

lemma valid_move_eq:
  "wf_grid g \<Longrightarrow> valid_move g p dx dy = Inr (fits g p dx dy)"
  by (simp add: valid_move_def valid_rows_eq fits_iff list_all_enumerate_cells)

subsection \<open>The lock writes\<close>

lemma wf_set_cell:
  "wf_grid g \<Longrightarrow> on_grid c \<Longrightarrow> wf_grid (set_cell col g c)"
  by (cases c) (auto simp: wf_grid_nth set_cell_def on_grid_def nth_list_update)

lemma wf_foldl_set_cell:
  "wf_grid g \<Longrightarrow> list_all on_grid L \<Longrightarrow> wf_grid (foldl (set_cell col) g L)"
  by (induction L arbitrary: g) (simp_all add: wf_set_cell)

lemma set_cell_nth:
  assumes "wf_grid g" "on_grid a" "r < length g" "c < length (g ! r)"
  shows "set_cell col g a ! r ! c = (if a = (int c, int r) then Some col else g ! r ! c)"
  using assms
  by (cases a) (auto simp: set_cell_def on_grid_def wf_grid_nth nth_list_update)

lemma foldl_set_cell_nth:
  assumes "wf_grid g" "list_all on_grid L" "r < length g" "c < length (g ! r)"
  shows "foldl (set_cell col) g L ! r ! c = (if (int c, int r) \<in> set L then Some col else g ! r ! c)"
  using assms
proof (induction L arbitrary: g)
  case (Cons a L)
  have wf': "wf_grid (set_cell col g a)" using Cons.prems by (simp add: wf_set_cell)
  have "length (set_cell col g a) = length g" and "length (set_cell col g a ! r) = length (g ! r)"
    using wf' Cons.prems by (auto simp: wf_grid_nth)
  with Cons.IH [OF wf'] Cons.prems show ?case
    by (auto simp: set_cell_nth)
qed simp

lemma lock_row_eq:
  assumes "wf_grid g"
    and "list_all (\<lambda>(xx, c). c \<noteq> 0 \<longrightarrow> on_grid (piece_x p + int xx, piece_y p + int yy)) cs"
  shows "lock_row g p yy cs =
           Inr (foldl (set_cell (piece_color p)) g
                  (map (\<lambda>(xx, c). (piece_x p + int xx, piece_y p + int yy))
                       (filter (\<lambda>(xx, c). c \<noteq> 0) cs)))"
  using assms
proof (induction cs arbitrary: g)
  case (Cons a cs)
  obtain xx c where a: "a = (xx, c)" by (cases a)
  show ?case
  proof (cases "c = 0")
    case True
    with Cons a show ?thesis by simp
  next
    case False
    let ?cell = "(piece_x p + int xx, piece_y p + int yy)"
    have on: "on_grid ?cell" using Cons.prems a False by simp
    have wf': "wf_grid (set_cell (piece_color p) g ?cell)"
      using Cons.prems(1) on by (rule wf_set_cell)
    have "lock_row g p yy (a # cs) = lock_row (set_cell (piece_color p) g ?cell) p yy cs"
      using Cons.prems(1) on a False
      by (simp add: py_simps set_cell_def on_grid_def wf_grid_nth)
    with Cons.IH [OF wf'] Cons.prems a False show ?thesis by simp
  qed
qed simp

lemma lock_rows_eq:
  assumes "wf_grid g"
    and "list_all (\<lambda>(yy, row). list_all (\<lambda>(xx, c). c \<noteq> 0 \<longrightarrow>
            on_grid (piece_x p + int xx, piece_y p + int yy)) (enumerate 0 row)) rs"
  shows "lock_rows g p rs =
           Inr (foldl (set_cell (piece_color p)) g
                  (concat (map (\<lambda>(yy, row). map (\<lambda>(xx, c). (piece_x p + int xx, piece_y p + int yy))
                       (filter (\<lambda>(xx, c). c \<noteq> 0) (enumerate 0 row))) rs)))"
  using assms
proof (induction rs arbitrary: g)
  case (Cons a rs)
  obtain yy row where a: "a = (yy, row)" by (cases a)
  let ?L = "map (\<lambda>(xx, c). (piece_x p + int xx, piece_y p + int yy))
              (filter (\<lambda>(xx, c). c \<noteq> 0) (enumerate 0 row))"
  have on: "list_all on_grid ?L" using Cons.prems(2) a by (auto simp: list_all_iff)
  have wf': "wf_grid (foldl (set_cell (piece_color p)) g ?L)"
    using Cons.prems(1) on by (rule wf_foldl_set_cell)
  from Cons.prems a have "lock_row g p yy (enumerate 0 row) = Inr (foldl (set_cell (piece_color p)) g ?L)"
    by (simp add: lock_row_eq)
  with Cons.IH [OF wf'] Cons.prems a show ?case by simp
qed simp

lemma piece_cells_concat:
  "piece_cells p =
     concat (map (\<lambda>(yy, row). map (\<lambda>(xx, c). (piece_x p + int xx, piece_y p + int yy))
        (filter (\<lambda>(xx, c). c \<noteq> 0) (enumerate 0 row))) (enumerate 0 (piece_shape p)))"
  by (simp add: piece_cells_def cells_def map_concat split_def comp_def)

lemma lock_cells_eq:
  assumes "wf_grid g" "list_all on_grid (piece_cells p)"
  shows "lock_cells g p = Inr (place g p)"
proof -
  have "\<forall>(xx, yy) \<in> set (cells (piece_shape p)). on_grid (piece_x p + int xx, piece_y p + int yy)"
    using assms(2) by (auto simp: piece_cells_def list_all_iff)
  then have "list_all (\<lambda>(yy, row). list_all (\<lambda>(xx, c). c \<noteq> 0 \<longrightarrow>
            on_grid (piece_x p + int xx, piece_y p + int yy)) (enumerate 0 row))
          (enumerate 0 (piece_shape p))"
    by (simp only: list_all_enumerate_cells)
  with assms(1) show ?thesis
    by (simp add: lock_cells_def lock_rows_eq place_def piece_cells_concat)
qed

lemma wf_place: "wf_grid g \<Longrightarrow> list_all on_grid (piece_cells p) \<Longrightarrow> wf_grid (place g p)"
  by (simp add: place_def wf_foldl_set_cell)

lemma place_nth:
  "wf_grid g \<Longrightarrow> list_all on_grid (piece_cells p) \<Longrightarrow> r < length g \<Longrightarrow> c < length (g ! r) \<Longrightarrow>
   place g p ! r ! c = (if (int c, int r) \<in> set (piece_cells p) then Some (piece_color p) else g ! r ! c)"
  by (simp add: place_def foldl_set_cell_nth)

lemma grid_colours_set_cell:
  assumes "grid_colours g" and "col \<in> set COLORS"
  shows "grid_colours (set_cell col g c)"
proof -
  obtain cx cy where c: "c = (cx, cy)" by (cases c)
  have row: "list_all colour_ok ((g ! nat cy)[nat cx := Some col])" if "nat cy < length g"
  proof -
    have "list_all colour_ok (g ! nat cy)" using assms(1) that by (simp add: grid_colours_def list_all_length)
    with assms(2) show ?thesis
      by (auto simp: list_all_iff colour_ok_def dest: set_update_subset_insert [THEN subsetD])
  qed
  show ?thesis
    using assms(1) row
    by (cases "nat cy < length g")
       (auto simp: grid_colours_def set_cell_def c list_all_iff list_update_beyond
             dest: set_update_subset_insert [THEN subsetD])
qed

lemma grid_colours_place:
  "grid_colours g \<Longrightarrow> piece_color p \<in> set COLORS \<Longrightarrow> grid_colours (place g p)"
proof -
  have "grid_colours (foldl (set_cell col) g cs)" if "grid_colours g" "col \<in> set COLORS" for g col cs
    using that by (induction cs arbitrary: g) (simp_all add: grid_colours_set_cell)
  then show "grid_colours g \<Longrightarrow> piece_color p \<in> set COLORS \<Longrightarrow> grid_colours (place g p)"
    by (simp add: place_def)
qed

subsection \<open>Properties of the collision check and of the lock\<close>

text \<open>C4: on a well-formed grid, \<open>valid_move\<close> never raises, and it accepts the
  displacement \<open>(dx, dy)\<close> exactly when every occupied cell of the shape lands inside
  the side walls, above the floor, and (when it is on the grid rather than above it)
  on a free cell.\<close>

theorem valid_move_correct:
  assumes "wf_grid g"
  shows "valid_move g p dx dy =
           Inr (\<forall>(xx, yy) \<in> set (cells (piece_shape p)).
                  let cx = piece_x p + int xx + dx; cy = piece_y p + int yy + dy
                  in 0 \<le> cx \<and> cx < GRID_WIDTH \<and> cy < GRID_HEIGHT \<and>
                     (cy < 0 \<or> g ! nat cy ! nat cx = None))"
  using assms by (simp add: valid_move_eq fits_iff cell_free_def Let_def)

theorem valid_move_correct_witness:
  "valid_move empty_grid \<lparr>piece_shape = [[1, 1], [1, 1]], piece_color = (255, 255, 0),
                          piece_x = 8, piece_y = 0\<rparr> 1 0 =
   Inr (\<forall>(xx, yy) \<in> set (cells [[1, 1], [1, 1]]).
          let cx = 8 + int xx + 1; cy = 0 + int yy + 0
          in 0 \<le> cx \<and> cx < GRID_WIDTH \<and> cy < GRID_HEIGHT \<and>
             (cy < 0 \<or> empty_grid ! nat cy ! nat cx = None))"
  using valid_move_correct [OF wf_empty_grid, of "\<lparr>piece_shape = [[1, 1], [1, 1]],
    piece_color = (255, 255, 0), piece_x = 8, piece_y = 0\<rparr>" 1 0] by simp

text \<open>C20: whatever the grid holds, a displacement that takes any occupied cell past a
  side wall or below the floor is rejected.\<close>

theorem valid_move_out_of_bounds:
  assumes "wf_grid g" and "(cx, cy) \<in> set (piece_cells p)"
    and "cx + dx < 0 \<or> cx + dx \<ge> GRID_WIDTH \<or> cy + dy \<ge> GRID_HEIGHT"
  shows "valid_move g p dx dy = Inr False"
proof -
  have "\<not> cell_free g (cx + dx) (cy + dy)"
    using assms(3) by (auto simp: cell_free_def)
  then have "\<not> fits g p dx dy"
    using assms(2) by (auto simp: fits_def list_all_iff)
  with assms(1) show ?thesis by (simp add: valid_move_eq)
qed

theorem valid_move_out_of_bounds_witness:
  "valid_move empty_grid \<lparr>piece_shape = [[1, 1, 1, 1]], piece_color = (0, 255, 255),
                          piece_x = 0, piece_y = 0\<rparr> (-1) 0 = Inr False"
proof -
  let ?p = "\<lparr>piece_shape = [[1, 1, 1, 1]], piece_color = (0, 255, 255),
             piece_x = 0, piece_y = 0\<rparr> :: piece"
  have "(0, 0) \<in> set (piece_cells ?p)"
    by (simp add: piece_cells_def cells_def)
  moreover have "(0::int) + -1 < 0 \<or> (0::int) + -1 \<ge> GRID_WIDTH \<or> (0::int) + 0 \<ge> GRID_HEIGHT"
    by simp
  ultimately show ?thesis
    using valid_move_out_of_bounds [OF wf_empty_grid] by blast
qed

text \<open>C5: when every cell of the piece is on the grid, the writing loop of
  \<open>lock_piece\<close> does not raise, keeps the grid's shape, colours exactly the cells the
  piece covers and leaves every other cell as it was.\<close>

theorem lock_cells_correct:
  assumes "wf_grid g" and "list_all on_grid (piece_cells p)"
  shows "\<exists>g'. lock_cells g p = Inr g' \<and> wf_grid g' \<and>
           (\<forall>r < nat GRID_HEIGHT. \<forall>c < nat GRID_WIDTH.
              g' ! r ! c = (if (int c, int r) \<in> set (piece_cells p) then Some (piece_color p)
                            else g ! r ! c))"
proof -
  have "\<forall>r < nat GRID_HEIGHT. \<forall>c < nat GRID_WIDTH.
          place g p ! r ! c = (if (int c, int r) \<in> set (piece_cells p) then Some (piece_color p)
                               else g ! r ! c)"
    using assms by (auto simp: place_nth wf_grid_nth)
  with assms show ?thesis by (simp add: lock_cells_eq wf_place)
qed

theorem lock_cells_correct_witness:
  "\<exists>g'. lock_cells empty_grid \<lparr>piece_shape = [[1, 1], [1, 1]], piece_color = (255, 255, 0),
                                 piece_x = 4, piece_y = 18\<rparr> = Inr g' \<and> wf_grid g' \<and>
     (\<forall>r < nat GRID_HEIGHT. \<forall>c < nat GRID_WIDTH.
        g' ! r ! c = (if (int c, int r) \<in> set [(4, 18), (5, 18), (4, 19), (5, 19)]
                      then Some (255, 255, 0) else empty_grid ! r ! c))"
proof -
  let ?p = "\<lparr>piece_shape = [[1, 1], [1, 1]], piece_color = (255, 255, 0),
             piece_x = 4, piece_y = 18\<rparr> :: piece"
  have cells: "piece_cells ?p = [(4, 18), (5, 18), (4, 19), (5, 19)]"
    by (simp add: piece_cells_def cells_def)
  have "list_all on_grid (piece_cells ?p)"
    by (simp add: cells on_grid_def GRID_WIDTH_def GRID_HEIGHT_def)
  from lock_cells_correct [OF wf_empty_grid this] show ?thesis
    by (simp only: cells piece.select_convs)
qed


end
