(* ===== verification/Engine.thy ===== *)
theory Engine
  imports Placement
begin

text \<open>
  The \<open>Tetris\<close> class of \<open>src/tetris.py\<close> (lines 57--142, without \<open>draw\<close>).  Its
  state is the record \<open>tetris\<close>: the four attributes of the object and, as the field
  \<open>rng\<close>, the remaining draws of the process-global random generator that
  \<open>new_piece\<close> consumes.  Each method is a function from the state to
  \<open>tetris result\<close>: a state update, or the exception the method would raise.
  The hard-drop loop of the main loop (lines 209--210) may in general run forever,
  so it is a \<open>partial_function (option)\<close> whose \<open>None\<close> is non-termination;
  its termination on the pieces the game can hold is a theorem.
\<close>

record tetris =
  grid :: grid
  current_piece :: piece
  game_over :: bool
  score :: int
  rng :: "nat stream"

text \<open>\<open>Tetris.__init__\<close>\<close>

definition init :: "nat stream \<Rightarrow> tetris result" where
  "init rs =
     (let g = empty_grid
      in bind_e (new_piece rs) (\<lambda>(p, rs').
           Inr \<lparr>grid = g, current_piece = p, game_over = False, score = 0, rng = rs'\<rparr>))"

text \<open>The \<open>if/elif\<close> chain of lines 115--122.\<close>

definition score_delta :: "nat \<Rightarrow> int" where
  "score_delta lines_cleared =
     (if lines_cleared = 1 then 100
      else if lines_cleared = 2 then 300
      else if lines_cleared = 3 then 500
      else if lines_cleared = 4 then 800
      else 0)"

text \<open>\<open>Tetris.clear_lines\<close>\<close>

definition clear_lines :: "tetris \<Rightarrow> tetris result" where
  "clear_lines st =
     bind_e (clear_rows (grid st) [0..<nat GRID_HEIGHT] 0) (\<lambda>(g, lines_cleared).
       Inr (st\<lparr>grid := g, score := score st + score_delta lines_cleared\<rparr>))"

text \<open>\<open>Tetris.lock_piece\<close>: write the cells, clear the rows, spawn the next piece and
  end the game if it does not fit where it spawns.\<close>

definition lock_piece :: "piece \<Rightarrow> tetris \<Rightarrow> tetris result" where
  "lock_piece p st =
     bind_e (lock_cells (grid st) p) (\<lambda>g.
     bind_e (clear_lines (st\<lparr>grid := g\<rparr>)) (\<lambda>st1.
     bind_e (new_piece (rng st1)) (\<lambda>(np, rs).
       let st2 = st1\<lparr>current_piece := np, rng := rs\<rparr>
       in bind_e (valid_move (grid st2) (current_piece st2) 0 0) (\<lambda>ok.
            Inr (if \<not> ok then st2\<lparr>game_over := True\<rparr> else st2)))))"

text \<open>\<open>Tetris.rotate_piece\<close>: install the rotated matrix, put the old one back if the
  piece no longer fits.  The method itself does not look at \<open>game_over\<close>.\<close>

definition rotate_piece :: "tetris \<Rightarrow> tetris result" where
  "rotate_piece st =
     bind_e (rotated_shape (piece_shape (current_piece st))) (\<lambda>rotated.
       let old_shape = piece_shape (current_piece st);
           st1 = st\<lparr>current_piece := (current_piece st)\<lparr>piece_shape := rotated\<rparr>\<rparr>
       in bind_e (valid_move (grid st1) (current_piece st1) 0 0) (\<lambda>ok.
            Inr (if \<not> ok then st1\<lparr>current_piece := (current_piece st1)\<lparr>piece_shape := old_shape\<rparr>\<rparr>
                 else st1)))"

text \<open>\<open>Tetris.update\<close>, the gravity step.\<close>

definition update :: "tetris \<Rightarrow> tetris result" where
  "update st =
     (if \<not> game_over st then
        bind_e (valid_move (grid st) (current_piece st) 0 1) (\<lambda>ok.
          if ok then Inr (st\<lparr>current_piece := (current_piece st)\<lparr>piece_y := piece_y (current_piece st) + 1\<rparr>\<rparr>)
          else lock_piece (current_piece st) st)
      else Inr st)"

text \<open>Lines 209--210: \<open>while game.valid_move(game.current_piece, 0, 1):
  game.current_piece["y"] += 1\<close>.\<close>

partial_function (option) drop_loop :: "tetris \<Rightarrow> tetris result option" where
  "drop_loop st =
     (case valid_move (grid st) (current_piece st) 0 1 of
        Inl e \<Rightarrow> Some (Inl e)
      | Inr ok \<Rightarrow>
          if ok then drop_loop (st\<lparr>current_piece := (current_piece st)\<lparr>piece_y := piece_y (current_piece st) + 1\<rparr>\<rparr>)
          else Some (Inr st))"

text \<open>Lines 207--211, the hard drop: the loop, then \<open>game.lock_piece(game.current_piece)\<close>.\<close>

definition hard_drop :: "tetris \<Rightarrow> tetris result option" where
  "hard_drop st = map_option (\<lambda>r. bind_e r (\<lambda>st1. lock_piece (current_piece st1) st1)) (drop_loop st)"

subsection \<open>Scoring and row clearing\<close>

lemma score_delta_bounds: "0 \<le> score_delta n" "score_delta n \<le> 800" "100 dvd score_delta n"
  by (simp_all add: score_delta_def)

lemma clear_lines_eq:
  "wf_grid (grid st) \<Longrightarrow>
   clear_lines st =
     Inr (st\<lparr>grid := clear_ref (grid st), score := score st + score_delta (count_full (grid st))\<rparr>)"
  using clear_rows_from [of 0 "grid st" 0] by (simp add: clear_lines_def wf_grid_def)

subsection \<open>Displacing a piece\<close>

lemma fits_x: "fits g p dx 0 \<longleftrightarrow> fits g (p\<lparr>piece_x := piece_x p + dx\<rparr>) 0 0"
  by (simp add: fits_iff ac_simps)

lemma fits_y: "fits g p 0 dy \<longleftrightarrow> fits g (p\<lparr>piece_y := piece_y p + dy\<rparr>) 0 0"
  by (simp add: fits_iff ac_simps)

text \<open>The three displacements of the main loop, as rewrite rules that do not loop.\<close>

lemma fits_moves:
  shows fits_left: "fits g p (-1) 0 \<longleftrightarrow> fits g (p\<lparr>piece_x := piece_x p - 1\<rparr>) 0 0"
    and fits_right: "fits g p 1 0 \<longleftrightarrow> fits g (p\<lparr>piece_x := piece_x p + 1\<rparr>) 0 0"
    and fits_down: "fits g p 0 1 \<longleftrightarrow> fits g (p\<lparr>piece_y := piece_y p + 1\<rparr>) 0 0"
  using fits_x [of g p "-1"] fits_x [of g p 1] fits_y [of g p 1] by simp_all

lemma fits_on_grid:
  "fits g p 0 0 \<Longrightarrow> 0 \<le> piece_y p \<Longrightarrow> list_all on_grid (piece_cells p)"
  by (auto simp: fits_def cell_free_def on_grid_def piece_cells_def list_all_iff)

lemma fits_below_floor:
  "fits g p 0 dy \<Longrightarrow> (xx, yy) \<in> set (cells (piece_shape p)) \<Longrightarrow> piece_y p + dy < GRID_HEIGHT"
  by (fastforce simp: fits_iff cell_free_def)

subsection \<open>The methods in closed form\<close>

lemma lock_piece_eq:
  assumes "wf_grid (grid st)" and "list_all on_grid (piece_cells p)"
  shows "lock_piece p st =
    Inr (st\<lparr>grid := clear_ref (place (grid st) p),
            current_piece := spawn (shd (rng st) mod 7),
            game_over := (game_over st \<or> \<not> fits (clear_ref (place (grid st) p)) (spawn (shd (rng st) mod 7)) 0 0),
            score := score st + score_delta (count_full (place (grid st) p)),
            rng := stl (rng st)\<rparr>)"
  using assms
  by (simp add: lock_piece_def lock_cells_eq clear_lines_eq wf_place new_piece_eq valid_move_eq
      wf_clear_ref Let_def)

lemma rotate_piece_eq:
  assumes "wf_grid (grid st)" and "rectangular (piece_shape (current_piece st))"
  shows "rotate_piece st =
    Inr (if fits (grid st) ((current_piece st)\<lparr>piece_shape := rot (piece_shape (current_piece st))\<rparr>) 0 0
         then st\<lparr>current_piece := (current_piece st)\<lparr>piece_shape := rot (piece_shape (current_piece st))\<rparr>\<rparr>
         else st)"
  using assms by (simp add: rotate_piece_def rotated_shape_rot valid_move_eq)

lemma update_eq:
  assumes "wf_grid (grid st)" and "\<not> game_over st"
  shows "update st =
    (if fits (grid st) (current_piece st) 0 1
     then Inr (st\<lparr>current_piece := (current_piece st)\<lparr>piece_y := piece_y (current_piece st) + 1\<rparr>\<rparr>)
     else lock_piece (current_piece st) st)"
  using assms by (simp add: update_def valid_move_eq)

subsection \<open>Termination of the hard-drop loop\<close>

text \<open>The loop moves the piece down while it fits one row lower.  A piece with an
  occupied cell cannot fit below the floor, so the distance from the anchor to the
  floor, \<open>GRID_HEIGHT - y\<close>, decreases at every iteration that continues.\<close>

lemma drop_loop_steps:
  assumes wf: "wf_grid (grid st)" and cell: "(xx, yy) \<in> set (cells (piece_shape (current_piece st)))"
  shows "\<exists>k::nat. drop_loop st =
           Some (Inr (st\<lparr>current_piece := (current_piece st)\<lparr>piece_y := piece_y (current_piece st) + int k\<rparr>\<rparr>)) \<and>
         (\<forall>j\<le>k. fits (grid st) ((current_piece st)\<lparr>piece_y := piece_y (current_piece st) + int j\<rparr>) 0 1 \<longleftrightarrow> j < k)"
  using wf cell
proof (induction "nat (GRID_HEIGHT - piece_y (current_piece st))" arbitrary: st rule: less_induct)
  case less
  let ?p = "current_piece st"
  let ?down = "st\<lparr>current_piece := ?p\<lparr>piece_y := piece_y ?p + 1\<rparr>\<rparr>"
  show ?case
  proof (cases "fits (grid st) ?p 0 1")
    case True
    have "piece_y ?p + 1 < GRID_HEIGHT"
      using fits_below_floor [OF True less.prems(2)] by simp
    then have dec: "nat (GRID_HEIGHT - piece_y (current_piece ?down)) < nat (GRID_HEIGHT - piece_y ?p)"
      by simp
    obtain k where k: "drop_loop ?down =
           Some (Inr (?down\<lparr>current_piece := (current_piece ?down)\<lparr>piece_y := piece_y (current_piece ?down) + int k\<rparr>\<rparr>))"
      and kfit: "\<forall>j\<le>k. fits (grid st) ((current_piece ?down)\<lparr>piece_y := piece_y (current_piece ?down) + int j\<rparr>) 0 1
                  \<longleftrightarrow> j < k"
      using less.hyps [OF dec] less.prems by auto
    have "drop_loop st = drop_loop ?down"
      using less.prems(1) True by (simp add: drop_loop.simps [of st] valid_move_eq)
    then have "drop_loop st =
           Some (Inr (st\<lparr>current_piece := ?p\<lparr>piece_y := piece_y ?p + int (Suc k)\<rparr>\<rparr>))"
      using k by (simp add: ac_simps)
    moreover have "\<forall>j\<le>Suc k. fits (grid st) (?p\<lparr>piece_y := piece_y ?p + int j\<rparr>) 0 1 \<longleftrightarrow> j < Suc k"
    proof (intro allI impI)
      fix j assume j: "j \<le> Suc k"
      show "fits (grid st) (?p\<lparr>piece_y := piece_y ?p + int j\<rparr>) 0 1 \<longleftrightarrow> j < Suc k"
      proof (cases j)
        case 0
        with True show ?thesis by simp
      next
        case (Suc i)
        with j kfit show ?thesis by (simp add: ac_simps)
      qed
    qed
    ultimately show ?thesis by blast
  next
    case False
    have "drop_loop st = Some (Inr st)"
      using less.prems(1) False by (simp add: drop_loop.simps [of st] valid_move_eq)
    with False show ?thesis by (intro exI [of _ 0]) simp
  qed
qed

lemma drop_loop_steps_orientation:
  assumes "wf_grid (grid st)" and "piece_shape (current_piece st) \<in> set orientations"
  shows "\<exists>k::nat. drop_loop st =
           Some (Inr (st\<lparr>current_piece := (current_piece st)\<lparr>piece_y := piece_y (current_piece st) + int k\<rparr>\<rparr>)) \<and>
         (\<forall>j\<le>k. fits (grid st) ((current_piece st)\<lparr>piece_y := piece_y (current_piece st) + int j\<rparr>) 0 1 \<longleftrightarrow> j < k)"
proof -
  have ne: "cells (piece_shape (current_piece st)) \<noteq> []"
    using orientation_cells [OF assms(2)] by auto
  obtain xx yy where xy: "hd (cells (piece_shape (current_piece st))) = (xx, yy)"
    by (cases "hd (cells (piece_shape (current_piece st)))")
  have "(xx, yy) \<in> set (cells (piece_shape (current_piece st)))"
    using hd_in_set [OF ne] xy by simp
  from drop_loop_steps [OF assms(1) this] show ?thesis .
qed

subsection \<open>Facts about the spawn position\<close>

lemma spawn_fits_empty_grid: "k < 7 \<Longrightarrow> fits empty_grid (spawn k) 0 0"
proof -
  have "list_all (\<lambda>k. fits empty_grid (spawn k) 0 0) [0..<7]"
    by code_simp
  then show "k < 7 \<Longrightarrow> ?thesis" by (simp add: list_all_iff)
qed

lemma spawn_orientation: "k < 7 \<Longrightarrow> piece_shape (spawn k) \<in> set orientations"
  by (simp add: spawn_def SHAPES_orientations)

lemma spawn_y [simp]: "piece_y (spawn k) = 0"
  by (simp add: spawn_def)

lemma spawn_colour: "k < 7 \<Longrightarrow> piece_color (spawn k) \<in> set COLORS"
  by (simp add: spawn_def)

subsection \<open>Properties of the engine\<close>

text \<open>C6: locking a piece that lies on the grid never raises; the new grid is the
  grid with the piece written in and the full rows cleared (so it is well formed and
  has no full row), the score grows by the table value of the number of rows
  completed, the next piece is the one the next draw selects, and the game is over
  exactly when that piece does not fit where it spawns.\<close>

theorem lock_piece_correct:
  assumes "wf_grid (grid st)" and "list_all on_grid (piece_cells p)"
  shows "\<exists>st'. lock_piece p st = Inr st' \<and>
           grid st' = clear_ref (place (grid st) p) \<and> wf_grid (grid st') \<and>
           no_full_rows (grid st') \<and>
           score st' = score st + score_delta (count_full (place (grid st) p)) \<and>
           current_piece st' = spawn (shd (rng st) mod 7) \<and> rng st' = stl (rng st) \<and>
           (game_over st' \<longleftrightarrow> game_over st \<or> \<not> fits (grid st') (current_piece st') 0 0)"
  using assms by (simp add: lock_piece_eq wf_clear_ref wf_place no_full_rows_clear_ref)

theorem lock_piece_correct_witness:
  "\<exists>st'. lock_piece (spawn 3) \<lparr>grid = empty_grid, current_piece = spawn 3, game_over = False,
                                  score = 0, rng = sconst 0\<rparr> = Inr st' \<and>
     grid st' = clear_ref (place empty_grid (spawn 3)) \<and> wf_grid (grid st') \<and>
     no_full_rows (grid st') \<and>
     score st' = 0 + score_delta (count_full (place empty_grid (spawn 3))) \<and>
     current_piece st' = spawn (0 mod 7) \<and> rng st' = sconst 0 \<and>
     (game_over st' \<longleftrightarrow> False \<or> \<not> fits (grid st') (current_piece st') 0 0)"
proof -
  have "list_all on_grid (piece_cells (spawn 3))"
    by (simp add: spawn_def SHAPES_def piece_cells_def cells_def on_grid_def GRID_WIDTH_def
        GRID_HEIGHT_def)
  from lock_piece_correct [OF _ this, of "\<lparr>grid = empty_grid, current_piece = spawn 3,
      game_over = False, score = 0, rng = sconst 0\<rparr>"] wf_empty_grid
  show ?thesis by simp
qed



text \<open>C12: the scoring example of the specification, on the configured 10 by 20 grid.
  The bottom four rows are full except column 0, and a vertical I piece stands in
  that well.  The gravity step cannot move it, so it locks it: all four rows are
  cleared at once and the score grows by 800, not by four times 100.\<close>

theorem update_clears_four_rows:
  "update \<lparr>grid = replicate 16 empty_row @ replicate 4 (None # replicate 9 (Some (0, 0, 255))),
           current_piece = \<lparr>piece_shape = [[1], [1], [1], [1]], piece_color = (0, 255, 255),
                            piece_x = 0, piece_y = 16\<rparr>,
           game_over = False, score = 0, rng = sconst 0\<rparr> =
   Inr \<lparr>grid = empty_grid, current_piece = spawn 0, game_over = False, score = 800, rng = sconst 0\<rparr>"
proof -
  let ?g = "replicate 16 empty_row @ replicate 4 (None # replicate 9 (Some (0, 0, 255)))"
  let ?p = "\<lparr>piece_shape = [[1], [1], [1], [1]], piece_color = (0, 255, 255),
             piece_x = 0, piece_y = 16\<rparr> :: piece"
  have wf: "wf_grid ?g" by code_simp
  have stuck: "\<not> fits ?g ?p 0 1" by code_simp
  have on: "list_all on_grid (piece_cells ?p)" by code_simp
  have cleared: "clear_ref (place ?g ?p) = empty_grid" and four: "count_full (place ?g ?p) = 4"
    by code_simp+
  have "fits empty_grid (spawn 0) 0 0" by (simp add: spawn_fits_empty_grid)
  with wf stuck on cleared four show ?thesis
    by (simp add: update_eq lock_piece_eq score_delta_def)
qed



text \<open>C22: whichever shape the generator selects, the new piece fits where it spawns
  on an empty grid, so the first piece of a game never ends it.\<close>

theorem new_piece_fits_empty:
  assumes "new_piece rs = Inr (p, rs')"
  shows "valid_move empty_grid p 0 0 = Inr True"
proof -
  have "p = spawn (shd rs mod 7)" using assms by (simp add: new_piece_eq)
  then show ?thesis by (simp add: valid_move_eq wf_empty_grid spawn_fits_empty_grid)
qed

theorem new_piece_fits_empty_witness:
  "new_piece (sconst 4) = Inr (spawn 4, sconst 4) \<and> valid_move empty_grid (spawn 4) 0 0 = Inr True"
proof -
  have np: "new_piece (sconst 4) = Inr (spawn 4, sconst 4)" by (simp add: new_piece_eq)
  with new_piece_fits_empty [OF np] show ?thesis by simp
qed

text \<open>C26: \<open>rotate_piece\<close> does not look at \<open>game_over\<close>.  After a game ended
  because the new I piece overlaps a block in the top row, calling the method still
  turns the piece upright, since the upright piece fits.  The specification's "no
  mutation after game over" holds only because the main loop guards the call.\<close>

theorem rotate_piece_ignores_game_over:
  "rotate_piece \<lparr>grid = empty_grid[0 := empty_row[5 := Some (255, 0, 0)]], current_piece = spawn 0,
                 game_over = True, score = 0, rng = sconst 0\<rparr> =
   Inr \<lparr>grid = empty_grid[0 := empty_row[5 := Some (255, 0, 0)]],
        current_piece = (spawn 0)\<lparr>piece_shape := [[1], [1], [1], [1]]\<rparr>,
        game_over = True, score = 0, rng = sconst 0\<rparr>"
proof -
  let ?g = "empty_grid[0 := empty_row[5 := Some (255, 0, 0)]]"
  have wf: "wf_grid ?g" by code_simp
  have rect: "rectangular (piece_shape (spawn 0))" by code_simp
  have r: "rot (piece_shape (spawn 0)) = [[1], [1], [1], [1]]" by code_simp
  have "fits ?g ((spawn 0)\<lparr>piece_shape := [[1], [1], [1], [1]]\<rparr>) 0 0" by code_simp
  with wf rect r show ?thesis by (simp add: rotate_piece_eq)
qed

text \<open>C13: the game-over example of the specification.  The top row holds one block
  where the next piece spawns; the current O piece rests on the floor, so the gravity
  step locks it, no row is complete, and the next piece (drawn by the generator)
  collides at its spawn position: the game is over, with the score unchanged.\<close>

theorem update_spawn_collision_ends_game:
  "\<exists>st'. update \<lparr>grid = empty_row[4 := Some (255, 0, 0)] # replicate 19 empty_row,
                    current_piece = (spawn 3)\<lparr>piece_x := 0, piece_y := 18\<rparr>,
                    game_over = False, score = 0, rng = sconst 3\<rparr> = Inr st' \<and>
         game_over st' \<and> score st' = 0 \<and> current_piece st' = spawn 3"
proof -
  let ?g = "empty_row[4 := Some (255, 0, 0)] # replicate 19 empty_row"
  let ?p = "(spawn 3)\<lparr>piece_x := 0, piece_y := 18\<rparr>"
  have wf: "wf_grid ?g" by code_simp
  have stuck: "\<not> fits ?g ?p 0 1" by code_simp
  have on: "list_all on_grid (piece_cells ?p)" by code_simp
  have none: "count_full (place ?g ?p) = 0" by code_simp
  have blocked: "\<not> fits (clear_ref (place ?g ?p)) (spawn 3) 0 0" by code_simp
  from wf stuck on none blocked show ?thesis
    by (simp add: update_eq lock_piece_eq score_delta_def)
qed

text \<open>C14: the single-row scoring example of the specification, taken literally.
  Its pre-state has the bottom two rows full except the first cell of the bottom row,
  so the row above is already complete; locking a piece into that one cell makes two
  full rows, and the single pass of \<open>clear_lines\<close> removes both and scores 300,
  not the 100 the example expects.\<close>

theorem lock_piece_example_clears_two_rows:
  "lock_piece \<lparr>piece_shape = [[1]], piece_color = (255, 0, 0), piece_x = 0, piece_y = 19\<rparr>
     \<lparr>grid = replicate 18 empty_row @ [replicate 10 (Some (0, 0, 255)),
                                         None # replicate 9 (Some (0, 0, 255))],
      current_piece = spawn 0, game_over = False, score = 0, rng = sconst 0\<rparr> =
   Inr \<lparr>grid = empty_grid, current_piece = spawn 0, game_over = False, score = 300,
        rng = sconst 0\<rparr>"
proof -
  let ?g = "replicate 18 empty_row @ [replicate 10 (Some (0, 0, 255)),
                                      None # replicate 9 (Some (0, 0, 255))]"
  let ?p = "\<lparr>piece_shape = [[1]], piece_color = (255, 0, 0), piece_x = 0, piece_y = 19\<rparr> :: piece"
  have wf: "wf_grid ?g" by code_simp
  have on: "list_all on_grid (piece_cells ?p)" by code_simp
  have cleared: "clear_ref (place ?g ?p) = empty_grid" and two: "count_full (place ?g ?p) = 2"
    by code_simp+
  have "fits empty_grid (spawn 0) 0 0" by (simp add: spawn_fits_empty_grid)
  with wf on cleared two show ?thesis
    by (simp add: lock_piece_eq score_delta_def)
qed

end
