(* ===== verification/Render.thy ===== *)
theory Render
  imports Engine
begin

text \<open>
  \<open>Tetris.draw\<close> (lines 144--174 of \<open>src/tetris.py\<close>) and the redraw of the main loop
  (lines 219--220: \<open>screen.fill(BLACK)\<close>, then \<open>game.draw()\<close>).  The screen surface is
  modelled by the sequence of drawing calls made on it since it was last filled: a
  \<open>draw_cmd\<close> is one \<open>screen.fill\<close>, one \<open>pygame.draw.rect\<close> (colour, rectangle, border
  width, 0 for a filled rectangle) or one text blit (\<open>font.render\<close> of a string in a
  colour with a font of a given size, then \<open>screen.blit\<close> at a position).  Reading the
  grid uses Python subscripts, so a grid of the wrong size raises IndexError here
  as in the source.  \<open>screen_of\<close> is the picture in closed form; the lemmas show that
  \<open>render\<close> computes it on well-formed grids, which filled rectangles it holds, and
  that every command stays inside the window.
\<close>

text \<open>Lines 8--10, 22, 25--26: colours and sizes used only by rendering.\<close>

definition BLACK :: color where "BLACK = (0, 0, 0)"

definition WHITE :: color where "WHITE = (255, 255, 255)"

definition GRAY :: color where "GRAY = (128, 128, 128)"

definition CELL_SIZE :: int where "CELL_SIZE = 30"

definition SCREEN_WIDTH :: int where "SCREEN_WIDTH = CELL_SIZE * (GRID_WIDTH + 6)"

definition SCREEN_HEIGHT :: int where "SCREEN_HEIGHT = CELL_SIZE * GRID_HEIGHT"

datatype draw_cmd =
    Fill color
  | Rect color "int \<times> int \<times> int \<times> int" nat
  | Blit nat string color "int \<times> int"

abbreviation cell_rect :: "int \<Rightarrow> int \<Rightarrow> int \<times> int \<times> int \<times> int" where
  "cell_rect x y \<equiv> (x * CELL_SIZE, y * CELL_SIZE, CELL_SIZE, CELL_SIZE)"

text \<open>Lines 148--154, the body of the inner loop once \<open>self.grid[y][x]\<close> is read:
  the grey outline, then the filled cell when the cell is truthy.\<close>

definition cell_cmds :: "int \<Rightarrow> int \<Rightarrow> cell \<Rightarrow> draw_cmd list" where
  "cell_cmds x y c =
     Rect GRAY (x * CELL_SIZE, y * CELL_SIZE, CELL_SIZE, CELL_SIZE) 1 #
     (case c of None \<Rightarrow> [] | Some col \<Rightarrow> [Rect col (x * CELL_SIZE, y * CELL_SIZE, CELL_SIZE, CELL_SIZE) 0])"

text \<open>Lines 147--154: \<open>for x in range(GRID_WIDTH)\<close> in row \<open>y\<close>.\<close>

definition draw_row :: "grid \<Rightarrow> nat \<Rightarrow> draw_cmd list result" where
  "draw_row g y =
     bind_e (map_e (\<lambda>x. bind_e (py_get g (int y)) (\<lambda>row.
                        bind_e (py_get row (int x)) (\<lambda>c. Inr (cell_cmds (int x) (int y) c))))
                   [0..<nat GRID_WIDTH])
       (\<lambda>css. Inr (concat css))"

text \<open>Lines 146--154: \<open>for y in range(GRID_HEIGHT)\<close>.\<close>

definition draw_grid :: "grid \<Rightarrow> draw_cmd list result" where
  "draw_grid g = bind_e (map_e (draw_row g) [0..<nat GRID_HEIGHT]) (\<lambda>css. Inr (concat css))"

text \<open>Lines 158--164: the cells of the current piece, filled in its colour.\<close>

definition draw_piece :: "piece \<Rightarrow> draw_cmd list" where
  "draw_piece p =
     concat (map (\<lambda>(yy, row). concat (map (\<lambda>(xx, c).
         if c \<noteq> 0 then [Rect (piece_color p) ((piece_x p + int xx) * CELL_SIZE,
                                               (piece_y p + int yy) * CELL_SIZE, CELL_SIZE, CELL_SIZE) 0]
         else []) (enumerate 0 row))) (enumerate 0 (piece_shape p)))"

text \<open>Lines 156--174: the piece unless the game is over, the score text, and the
  game-over banner.\<close>

definition draw_overlay :: "tetris \<Rightarrow> draw_cmd list" where
  "draw_overlay st =
     (if \<not> game_over st then draw_piece (current_piece st) else []) @
     [Blit 36 (''Score: '' @ py_str_int (score st)) WHITE (CELL_SIZE * GRID_WIDTH + 10, 20)] @
     (if game_over st
      then [Blit 48 ''GAME OVER!'' (255, 0, 0) (SCREEN_WIDTH div 2 - 120, SCREEN_HEIGHT div 2 - 30)]
      else [])"

text \<open>\<open>Tetris.draw\<close>\<close>

definition draw :: "tetris \<Rightarrow> draw_cmd list result" where
  "draw st = bind_e (draw_grid (grid st)) (\<lambda>cs. Inr (cs @ draw_overlay st))"

text \<open>Lines 219--220: \<open>screen.fill(BLACK)\<close>; \<open>game.draw()\<close>\<close>

definition render :: "tetris \<Rightarrow> draw_cmd list result" where
  "render st = bind_e (draw st) (\<lambda>cs. Inr (Fill BLACK # cs))"

text \<open>The picture in closed form, and what it means for a command to stay on screen:
  rectangles inside the board (the left \<open>CELL_SIZE * GRID_WIDTH\<close> pixels), text
  anchored inside the window.\<close>

definition grid_pic :: "grid \<Rightarrow> draw_cmd list" where
  "grid_pic g =
     concat (map (\<lambda>y. concat (map (\<lambda>x. cell_cmds (int x) (int y) (g ! y ! x)) [0..<nat GRID_WIDTH]))
                 [0..<nat GRID_HEIGHT])"

definition screen_of :: "tetris \<Rightarrow> draw_cmd list" where
  "screen_of st = Fill BLACK # grid_pic (grid st) @ draw_overlay st"

definition in_window :: "draw_cmd \<Rightarrow> bool" where
  "in_window cmd =
     (case cmd of
        Fill _ \<Rightarrow> True
      | Rect _ (x, y, w, h) _ \<Rightarrow>
          0 \<le> x \<and> x + w \<le> CELL_SIZE * GRID_WIDTH \<and> 0 \<le> y \<and> y + h \<le> SCREEN_HEIGHT
      | Blit _ _ _ (x, y) \<Rightarrow> 0 \<le> x \<and> x < SCREEN_WIDTH \<and> 0 \<le> y \<and> y < SCREEN_HEIGHT)"

subsection \<open>The drawing calls in closed form\<close>

lemma draw_row_eq:
  assumes "wf_grid g" and "y < nat GRID_HEIGHT"
  shows "draw_row g y = Inr (concat (map (\<lambda>x. cell_cmds (int x) (int y) (g ! y ! x)) [0..<nat GRID_WIDTH]))"
proof -
  have "length (g ! y) = nat GRID_WIDTH" and "y < length g"
    using assms by (simp_all add: wf_grid_nth)
  then have "map_e (\<lambda>x. bind_e (py_get g (int y)) (\<lambda>row.
                bind_e (py_get row (int x)) (\<lambda>c. Inr (cell_cmds (int x) (int y) c))))
               [0..<nat GRID_WIDTH] =
             Inr (map (\<lambda>x. cell_cmds (int x) (int y) (g ! y ! x)) [0..<nat GRID_WIDTH])"
    by (intro map_e_Inr) (simp add: py_simps)
  then show ?thesis by (simp add: draw_row_def)
qed

lemma draw_grid_eq:
  assumes "wf_grid g"
  shows "draw_grid g = Inr (grid_pic g)"
proof -
  have "map_e (draw_row g) [0..<nat GRID_HEIGHT] =
        Inr (map (\<lambda>y. concat (map (\<lambda>x. cell_cmds (int x) (int y) (g ! y ! x)) [0..<nat GRID_WIDTH]))
                 [0..<nat GRID_HEIGHT])"
    by (rule map_e_Inr) (simp add: draw_row_eq assms)
  then show ?thesis by (simp add: draw_grid_def grid_pic_def)
qed

lemma render_eq: "wf_grid (grid st) \<Longrightarrow> render st = Inr (screen_of st)"
  by (simp add: render_def draw_def draw_grid_eq screen_of_def)

subsection \<open>What the picture holds\<close>

lemma concat_map_if_single:
  "concat (map (\<lambda>(a, b). if P a b then [f a b] else []) xs) =
   map (\<lambda>(a, b). f a b) (filter (\<lambda>(a, b). P a b) xs)"
  by (induction xs) auto

lemma draw_piece_eq:
  "draw_piece p = map (\<lambda>(cx, cy). Rect (piece_color p) (cell_rect cx cy) 0) (piece_cells p)"
  unfolding draw_piece_def piece_cells_def cells_def
  by (simp add: map_concat concat_map_if_single comp_def case_prod_beta)
     (auto intro!: arg_cong [where f = concat] map_cong)

lemma cell_rect_inj [simp]: "cell_rect x y = cell_rect x' y' \<longleftrightarrow> x = x' \<and> y = y'"
  by (simp add: CELL_SIZE_def)

lemma Rect_cell_cmds:
  "Rect col r w \<in> set (cell_cmds x y c) \<longleftrightarrow>
     r = cell_rect x y \<and> (w = 1 \<and> col = GRAY \<or> w = 0 \<and> c = Some col)"
  by (cases c) (auto simp: cell_cmds_def)

lemma Rect_grid_pic:
  "Rect col r 0 \<in> set (grid_pic g) \<longleftrightarrow>
     (\<exists>x y. on_grid (x, y) \<and> r = cell_rect x y \<and> g ! nat y ! nat x = Some col)"
proof
  assume "Rect col r 0 \<in> set (grid_pic g)"
  then obtain x y where "x < nat GRID_WIDTH" "y < nat GRID_HEIGHT"
    and "Rect col r 0 \<in> set (cell_cmds (int x) (int y) (g ! y ! x))"
    by (auto simp: grid_pic_def)
  then show "\<exists>x y. on_grid (x, y) \<and> r = cell_rect x y \<and> g ! nat y ! nat x = Some col"
    by (intro exI [of _ "int x"] exI [of _ "int y"]) (auto simp: Rect_cell_cmds on_grid_def)
next
  assume "\<exists>x y. on_grid (x, y) \<and> r = cell_rect x y \<and> g ! nat y ! nat x = Some col"
  then obtain x y where o: "on_grid (x, y)" and r: "r = cell_rect x y"
    and c: "g ! nat y ! nat x = Some col" by blast
  from o have xs: "nat x \<in> set [0..<nat GRID_WIDTH]" and ys: "nat y \<in> set [0..<nat GRID_HEIGHT]"
    and "x = int (nat x)" and "y = int (nat y)"
    by (auto simp: on_grid_def)
  with r c have m: "Rect col r 0 \<in> set (cell_cmds (int (nat x)) (int (nat y)) (g ! nat y ! nat x))"
    by (simp add: Rect_cell_cmds)
  have "Rect col r 0 \<in> set (concat (map (\<lambda>x'. cell_cmds (int x') (int (nat y)) (g ! nat y ! x'))
                                          [0..<nat GRID_WIDTH]))"
    unfolding set_concat set_map by (rule UN_I [OF imageI [OF xs]]) (rule m)
  then show "Rect col r 0 \<in> set (grid_pic g)"
    unfolding grid_pic_def set_concat [of "map _ [0..<nat GRID_HEIGHT]"] set_map
    by (rule UN_I [OF imageI [OF ys]])
qed

lemma Rect_draw_piece:
  "Rect col r w \<in> set (draw_piece p) \<longleftrightarrow>
     w = 0 \<and> col = piece_color p \<and> (\<exists>(cx, cy) \<in> set (piece_cells p). r = cell_rect cx cy)"
  by (auto simp: draw_piece_eq)

lemma Rect_filled_screen_of:
  "Rect col r 0 \<in> set (screen_of st) \<longleftrightarrow>
     Rect col r 0 \<in> set (grid_pic (grid st)) \<or>
     \<not> game_over st \<and> Rect col r 0 \<in> set (draw_piece (current_piece st))"
  by (auto simp: screen_of_def draw_overlay_def)

subsection \<open>Every command stays on screen\<close>

lemma in_window_cell_rect:
  "on_grid (x, y) \<Longrightarrow> in_window (Rect col (cell_rect x y) w)"
  by (simp add: in_window_def on_grid_def CELL_SIZE_def SCREEN_HEIGHT_def GRID_WIDTH_def GRID_HEIGHT_def)

lemma in_window_grid_pic: "list_all in_window (grid_pic g)"
proof -
  have "list_all in_window (cell_cmds (int x) (int y) c)"
    if "x < nat GRID_WIDTH" and "y < nat GRID_HEIGHT" for x y c
  proof -
    have "on_grid (int x, int y)" using that by (simp add: on_grid_def GRID_WIDTH_def GRID_HEIGHT_def)
    then show ?thesis by (cases c) (simp_all add: cell_cmds_def in_window_cell_rect)
  qed
  then show ?thesis by (auto simp: grid_pic_def list_all_iff)
qed

lemma in_window_draw_piece:
  "list_all on_grid (piece_cells p) \<Longrightarrow> list_all in_window (draw_piece p)"
  by (auto simp: draw_piece_eq list_all_iff in_window_cell_rect)

lemma in_window_overlay:
  "(\<not> game_over st \<Longrightarrow> list_all on_grid (piece_cells (current_piece st))) \<Longrightarrow>
   list_all in_window (draw_overlay st)"
  by (simp add: draw_overlay_def in_window_draw_piece)
     (simp add: in_window_def SCREEN_WIDTH_def SCREEN_HEIGHT_def CELL_SIZE_def GRID_WIDTH_def GRID_HEIGHT_def)

lemma in_window_screen_of:
  "(\<not> game_over st \<Longrightarrow> list_all on_grid (piece_cells (current_piece st))) \<Longrightarrow>
   list_all in_window (screen_of st)"
  by (simp add: screen_of_def in_window_grid_pic in_window_overlay) (simp add: in_window_def)

subsection \<open>The score shown\<close>

text \<open>C19: the score text round trip: on a well-formed grid the redraw never raises, and
  its picture carries the string \<open>Score: \<close> followed by a numeral, drawn in white at
  the right of the board, which reads back as the score.\<close>

theorem render_score_text:
  assumes "wf_grid (grid st)"
  shows "\<exists>pic t. render st = Inr pic \<and>
           Blit 36 (''Score: '' @ t) WHITE (CELL_SIZE * GRID_WIDTH + 10, 20) \<in> set pic \<and>
           read_int t = score st"
  using assms by (auto simp: render_eq screen_of_def draw_overlay_def read_py_str_int)

theorem render_score_text_witness:
  "\<exists>pic t. render \<lparr>grid = empty_grid, current_piece = spawn 4, game_over = True, score = 1200,
                     rng = sconst 0\<rparr> = Inr pic \<and>
     Blit 36 (''Score: '' @ t) WHITE (CELL_SIZE * GRID_WIDTH + 10, 20) \<in> set pic \<and>
     read_int t = 1200"
  using render_score_text [of "\<lparr>grid = empty_grid, current_piece = spawn 4, game_over = True,
      score = 1200, rng = sconst 0\<rparr>"] wf_empty_grid by simp

end
