(* ===== verification/Game_Loop.thy ===== *)
theory Game_Loop
  imports Render
begin

text \<open>
  The main loop of \<open>src/tetris.py\<close> (lines 177--221): each frame adds the elapsed
  time to \<open>fall_time\<close>, handles the pending pygame events in order, and runs the
  gravity step \<open>game.update()\<close> once \<open>fall_time\<close> reaches \<open>fall_speed\<close>, then redraws
  the screen (\<open>Render.render\<close>), whose picture is kept in the field \<open>screen\<close>.  Events are a
  datatype of the ones the loop distinguishes; time is counted in whole milliseconds,
  the unit \<open>clock.tick\<close> returns (the source divides by 1000 and compares floats).

  The engine transitions the loop can trigger form the step relation \<open>game_step\<close>;
  the states reachable from \<open>Tetris()\<close> by such steps are \<open>reachable\<close>, and the
  invariant \<open>tetris_inv\<close> holds in all of them (rule induction); it includes the cell
  type (every colour stored is one of \<open>COLORS\<close>).  The last group
  shows progress: \<open>ticks\<close> (gravity steps with no key pressed) locks every piece within
  21 steps, and the loop runs no frame after the one that receives \<open>QUIT\<close>.
\<close>

datatype key = K_LEFT | K_RIGHT | K_DOWN | K_UP | K_SPACE | K_OTHER

datatype event = QUIT | KEYDOWN key | OTHER_EVENT

record loop_state =
  game :: tetris
  running :: bool
  fall_time :: nat
  screen :: "draw_cmd list"

text \<open>\<open>fall_speed = 0.5\<close> seconds\<close>

definition FALL_SPEED :: nat where
  "FALL_SPEED = 500"

text \<open>Lines 177--181: \<open>game = Tetris()\<close>, \<open>running = True\<close>, \<open>fall_time = 0\<close>; nothing
  has been drawn on the screen yet.\<close>

definition start :: "nat stream \<Rightarrow> loop_state result" where
  "start rs = bind_e (init rs) (\<lambda>st. Inr \<lparr>game = st, running = True, fall_time = 0, screen = []\<rparr>)"

text \<open>Lines 196--211: the key branches.  \<open>None\<close> is a hard drop that never ends.\<close>

definition key_handler :: "key \<Rightarrow> tetris \<Rightarrow> tetris result option" where
  "key_handler k st =
     (case k of
        K_LEFT \<Rightarrow> Some (bind_e (valid_move (grid st) (current_piece st) (-1) 0) (\<lambda>ok.
          Inr (if ok then st\<lparr>current_piece := (current_piece st)\<lparr>piece_x := piece_x (current_piece st) - 1\<rparr>\<rparr>
               else st)))
      | K_RIGHT \<Rightarrow> Some (bind_e (valid_move (grid st) (current_piece st) 1 0) (\<lambda>ok.
          Inr (if ok then st\<lparr>current_piece := (current_piece st)\<lparr>piece_x := piece_x (current_piece st) + 1\<rparr>\<rparr>
               else st)))
      | K_DOWN \<Rightarrow> Some (bind_e (valid_move (grid st) (current_piece st) 0 1) (\<lambda>ok.
          Inr (if ok then st\<lparr>current_piece := (current_piece st)\<lparr>piece_y := piece_y (current_piece st) + 1\<rparr>\<rparr>
               else st)))
      | K_UP \<Rightarrow> Some (rotate_piece st)
      | K_SPACE \<Rightarrow> hard_drop st
      | K_OTHER \<Rightarrow> Some (Inr st))"

text \<open>Lines 191--211, one event: \<open>QUIT\<close> clears \<open>running\<close>; then, unless the game is
  over, a key press is dispatched.\<close>

definition handle_event :: "event \<Rightarrow> loop_state \<Rightarrow> loop_state result option" where
  "handle_event ev ls =
     (let ls1 = (if ev = QUIT then ls\<lparr>running := False\<rparr> else ls)
      in if \<not> game_over (game ls1) then
           (case ev of
              KEYDOWN k \<Rightarrow> map_option (map_sum id (\<lambda>st. ls1\<lparr>game := st\<rparr>)) (key_handler k (game ls1))
            | _ \<Rightarrow> Some (Inr ls1))
         else Some (Inr ls1))"

text \<open>Line 190: \<open>for event in pygame.event.get()\<close>\<close>

fun handle_events :: "event list \<Rightarrow> loop_state \<Rightarrow> loop_state result option" where
  "handle_events [] ls = Some (Inr ls)"
| "handle_events (ev # evs) ls =
     (case handle_event ev ls of
        None \<Rightarrow> None
      | Some (Inl e) \<Rightarrow> Some (Inl e)
      | Some (Inr ls') \<Rightarrow> handle_events evs ls')"

text \<open>Lines 214--216: the gravity step once \<open>fall_time\<close> reaches \<open>fall_speed\<close>.\<close>

definition gravity :: "loop_state \<Rightarrow> loop_state result" where
  "gravity ls =
     (if FALL_SPEED \<le> fall_time ls \<and> \<not> game_over (game ls)
      then bind_e (update (game ls)) (\<lambda>st. Inr (ls\<lparr>game := st, fall_time := 0\<rparr>))
      else Inr ls)"

text \<open>Lines 219--221: the screen is filled, the game drawn, and the result shown.\<close>

definition redraw :: "loop_state \<Rightarrow> loop_state result" where
  "redraw ls = bind_e (render (game ls)) (\<lambda>pic. Inr (ls\<lparr>screen := pic\<rparr>))"

text \<open>Lines 186--221, one frame of \<open>dt\<close> milliseconds with the events \<open>evs\<close>.\<close>

definition frame :: "nat \<Rightarrow> event list \<Rightarrow> loop_state \<Rightarrow> loop_state result option" where
  "frame dt evs ls =
     (let ls1 = ls\<lparr>fall_time := fall_time ls + dt\<rparr>
      in case handle_events evs ls1 of
           None \<Rightarrow> None
         | Some (Inl e) \<Rightarrow> Some (Inl e)
         | Some (Inr ls2) \<Rightarrow> Some (bind_e (gravity ls2) redraw))"

text \<open>Line 184: \<open>while running\<close>, over a finite sequence of frames.\<close>

fun run_frames :: "(nat \<times> event list) list \<Rightarrow> loop_state \<Rightarrow> loop_state result option" where
  "run_frames [] ls = Some (Inr ls)"
| "run_frames ((dt, evs) # fs) ls =
     (if running ls then
        (case frame dt evs ls of
           None \<Rightarrow> None
         | Some (Inl e) \<Rightarrow> Some (Inl e)
         | Some (Inr ls') \<Rightarrow> run_frames fs ls')
      else Some (Inr ls))"

text \<open>Gravity alone: \<open>n\<close> successive calls of \<open>update\<close>, with no key pressed.\<close>

fun ticks :: "nat \<Rightarrow> tetris \<Rightarrow> tetris result" where
  "ticks 0 st = Inr st"
| "ticks (Suc n) st = bind_e (update st) (ticks n)"

subsection \<open>Engine transitions and reachable states\<close>

inductive game_step :: "tetris \<Rightarrow> tetris \<Rightarrow> bool" where
  key: "\<not> game_over st \<Longrightarrow> key_handler k st = Some (Inr st') \<Longrightarrow> game_step st st'"
| tick: "\<not> game_over st \<Longrightarrow> update st = Inr st' \<Longrightarrow> game_step st st'"

inductive reachable :: "tetris \<Rightarrow> bool" where
  start: "init rs = Inr st \<Longrightarrow> reachable st"
| step: "reachable st \<Longrightarrow> game_step st st' \<Longrightarrow> reachable st'"

definition tetris_inv :: "tetris \<Rightarrow> bool" where
  "tetris_inv st \<longleftrightarrow>
     wf_grid (grid st) \<and> no_full_rows (grid st) \<and>
     piece_shape (current_piece st) \<in> set orientations \<and> 0 \<le> piece_y (current_piece st) \<and>
     (game_over st \<or> fits (grid st) (current_piece st) 0 0) \<and> 0 \<le> score st \<and>
     100 dvd score st \<and> grid_colours (grid st) \<and> piece_color (current_piece st) \<in> set COLORS"

inductive_cases game_stepE: "game_step st st'"

subsection \<open>The invariant holds initially and is kept by every transition\<close>

lemma init_inv:
  assumes "init rs = Inr st"
  shows "tetris_inv st"
proof -
  have "st = \<lparr>grid = empty_grid, current_piece = spawn (shd rs mod 7), game_over = False,
              score = 0, rng = stl rs\<rparr>"
    using assms by (simp add: init_def new_piece_eq)
  moreover have "no_full_rows empty_grid"
    by (simp add: no_full_rows_def empty_grid_def list_all_iff)
  ultimately show ?thesis
    by (simp add: tetris_inv_def wf_empty_grid spawn_orientation spawn_fits_empty_grid
        grid_colours_empty_grid spawn_colour)
qed

lemma lock_piece_inv:
  assumes inv: "tetris_inv st" and fit: "fits (grid st) p 0 0" and y: "0 \<le> piece_y p"
    and col: "piece_color p = piece_color (current_piece st)"
  shows "\<exists>st'. lock_piece p st = Inr st' \<and> tetris_inv st' \<and> score st \<le> score st'"
proof -
  have wf: "wf_grid (grid st)" and sc: "0 \<le> score st" and dv: "100 dvd score st"
    using inv by (simp_all add: tetris_inv_def)
  have on: "list_all on_grid (piece_cells p)" using fit y by (rule fits_on_grid)
  have gc: "grid_colours (clear_ref (place (grid st) p))"
    using inv col by (simp add: tetris_inv_def grid_colours_place grid_colours_clear_ref)
  show ?thesis
    using wf sc dv on gc
    by (auto simp: lock_piece_eq tetris_inv_def wf_clear_ref wf_place no_full_rows_clear_ref
        spawn_orientation score_delta_bounds spawn_colour)
qed

lemma shift_inv:
  assumes "tetris_inv st" and "fits (grid st) p' 0 0" and "piece_shape p' = piece_shape (current_piece st)"
    and "piece_y (current_piece st) \<le> piece_y p'" and "piece_color p' = piece_color (current_piece st)"
  shows "tetris_inv (st\<lparr>current_piece := p'\<rparr>)"
  using assms by (auto simp: tetris_inv_def)

lemma key_handler_inv:
  assumes inv: "tetris_inv st" and run: "\<not> game_over st"
  shows "\<exists>st'. key_handler k st = Some (Inr st') \<and> tetris_inv st' \<and> score st \<le> score st'"
proof -
  let ?p = "current_piece st" and ?g = "grid st"
  have wf: "wf_grid ?g" and orient: "piece_shape ?p \<in> set orientations"
    and y: "0 \<le> piece_y ?p" and fit: "fits ?g ?p 0 0"
    using inv run by (simp_all add: tetris_inv_def)
  show ?thesis
  proof (cases k)
    case K_LEFT
    have "fits ?g ?p (-1) 0 \<Longrightarrow> tetris_inv (st\<lparr>current_piece := ?p\<lparr>piece_x := piece_x ?p - 1\<rparr>\<rparr>)"
      using inv by (intro shift_inv) (simp_all add: fits_left)
    with K_LEFT inv wf show ?thesis by (simp add: key_handler_def valid_move_eq)
  next
    case K_RIGHT
    have "fits ?g ?p 1 0 \<Longrightarrow> tetris_inv (st\<lparr>current_piece := ?p\<lparr>piece_x := piece_x ?p + 1\<rparr>\<rparr>)"
      using inv by (intro shift_inv) (simp_all add: fits_right)
    with K_RIGHT inv wf show ?thesis by (simp add: key_handler_def valid_move_eq)
  next
    case K_DOWN
    have "fits ?g ?p 0 1 \<Longrightarrow> tetris_inv (st\<lparr>current_piece := ?p\<lparr>piece_y := piece_y ?p + 1\<rparr>\<rparr>)"
      using inv by (intro shift_inv) (simp_all add: fits_down)
    with K_DOWN inv wf show ?thesis by (simp add: key_handler_def valid_move_eq)
  next
    case K_UP
    have rect: "rectangular (piece_shape ?p)" using orient by (rule orientation_rectangular)
    have "rot (piece_shape ?p) \<in> set orientations" using orient by (rule orientation_rot)
    with inv have "fits ?g (?p\<lparr>piece_shape := rot (piece_shape ?p)\<rparr>) 0 0 \<Longrightarrow>
        tetris_inv (st\<lparr>current_piece := ?p\<lparr>piece_shape := rot (piece_shape ?p)\<rparr>\<rparr>)"
      by (auto simp: tetris_inv_def)
    with K_UP inv wf rect show ?thesis by (simp add: key_handler_def rotate_piece_eq)
  next
    case K_SPACE
    obtain n :: nat where drop: "drop_loop st =
        Some (Inr (st\<lparr>current_piece := ?p\<lparr>piece_y := piece_y ?p + int n\<rparr>\<rparr>))"
      and steps: "\<forall>j\<le>n. fits ?g (?p\<lparr>piece_y := piece_y ?p + int j\<rparr>) 0 1 \<longleftrightarrow> j < n"
      using drop_loop_steps_orientation [OF wf orient] by blast
    let ?q = "?p\<lparr>piece_y := piece_y ?p + int n\<rparr>"
    have fq: "fits ?g ?q 0 0"
    proof (cases n)
      case 0
      with fit show ?thesis by simp
    next
      case (Suc m)
      with steps have "fits ?g (?p\<lparr>piece_y := piece_y ?p + int m\<rparr>) 0 1" by simp
      then have "fits ?g (?p\<lparr>piece_y := piece_y ?p + int m + 1\<rparr>) 0 0"
        by (simp add: fits_down)
      with Suc show ?thesis by (simp add: ac_simps)
    qed
    have inv1: "tetris_inv (st\<lparr>current_piece := ?q\<rparr>)"
      using inv fq by (intro shift_inv) simp_all
    obtain st' where "lock_piece ?q (st\<lparr>current_piece := ?q\<rparr>) = Inr st'"
      and "tetris_inv st'" and "score st \<le> score st'"
      using lock_piece_inv [OF inv1, of ?q] fq y by auto
    with K_SPACE drop show ?thesis by (simp add: key_handler_def hard_drop_def)
  next
    case K_OTHER
    with inv show ?thesis by (simp add: key_handler_def)
  qed
qed

lemma update_inv:
  assumes inv: "tetris_inv st" and run: "\<not> game_over st"
  shows "\<exists>st'. update st = Inr st' \<and> tetris_inv st' \<and> score st \<le> score st'"
proof -
  let ?p = "current_piece st" and ?g = "grid st"
  have wf: "wf_grid ?g" and y: "0 \<le> piece_y ?p" and fit: "fits ?g ?p 0 0"
    using inv run by (simp_all add: tetris_inv_def)
  show ?thesis
  proof (cases "fits ?g ?p 0 1")
    case True
    have "tetris_inv (st\<lparr>current_piece := ?p\<lparr>piece_y := piece_y ?p + 1\<rparr>\<rparr>)"
      using inv True by (intro shift_inv) (simp_all add: fits_down)
    with True wf run show ?thesis by (simp add: update_eq)
  next
    case False
    with wf run lock_piece_inv [OF inv fit y refl] show ?thesis by (simp add: update_eq)
  qed
qed

lemma game_step_inv:
  "game_step st st' \<Longrightarrow> tetris_inv st \<Longrightarrow> tetris_inv st' \<and> score st \<le> score st'"
proof (induction rule: game_step.induct)
  case (key st k st')
  then show ?case using key_handler_inv [of st k] by auto
next
  case (tick st st')
  then show ?case using update_inv [of st] by auto
qed

lemma reachable_inv: "reachable st \<Longrightarrow> tetris_inv st"
proof (induction rule: reachable.induct)
  case (start rs st)
  then show ?case by (rule init_inv)
next
  case (step st st')
  then show ?case using game_step_inv by blast
qed

lemma steps_inv:
  "game_step\<^sup>*\<^sup>* st st' \<Longrightarrow> tetris_inv st \<Longrightarrow> tetris_inv st' \<and> score st \<le> score st'"
proof (induction rule: rtranclp_induct)
  case (step st1 st2)
  then show ?case using game_step_inv [of st1 st2] by auto
qed simp

lemma reachable_steps: "game_step\<^sup>*\<^sup>* st st' \<Longrightarrow> reachable st \<Longrightarrow> reachable st'"
  by (induction rule: rtranclp_induct) (auto intro: reachable.step)

subsection \<open>The event loop and the frame\<close>

lemma handle_event_step:
  assumes inv: "tetris_inv (game ls)"
  shows "\<exists>ls'. handle_event ev ls = Some (Inr ls') \<and>
           game_step\<^sup>*\<^sup>* (game ls) (game ls') \<and> fall_time ls' = fall_time ls \<and>
           running ls' = (running ls \<and> ev \<noteq> QUIT)"
proof (cases "\<not> game_over (game ls) \<and> (\<exists>k. ev = KEYDOWN k)")
  case True
  then obtain k where ev: "ev = KEYDOWN k" and run: "\<not> game_over (game ls)" by blast
  obtain st' where "key_handler k (game ls) = Some (Inr st')"
    using key_handler_inv [OF inv run] by blast
  moreover have "game_step (game ls) st'" using run calculation by (rule game_step.key)
  ultimately show ?thesis using ev run by (simp add: handle_event_def)
next
  case False
  then show ?thesis by (cases ev) (auto simp: handle_event_def Let_def)
qed

lemma handle_events_steps:
  "tetris_inv (game ls) \<Longrightarrow>
   \<exists>ls'. handle_events evs ls = Some (Inr ls') \<and>
         game_step\<^sup>*\<^sup>* (game ls) (game ls') \<and> fall_time ls' = fall_time ls \<and>
         running ls' = (running ls \<and> QUIT \<notin> set evs)"
proof (induction evs arbitrary: ls)
  case (Cons ev evs)
  obtain ls1 where ev: "handle_event ev ls = Some (Inr ls1)"
    and s1: "game_step\<^sup>*\<^sup>* (game ls) (game ls1)" and t1: "fall_time ls1 = fall_time ls"
    and r1: "running ls1 = (running ls \<and> ev \<noteq> QUIT)"
    using handle_event_step [OF Cons.prems] by blast
  have "tetris_inv (game ls1)" using steps_inv [OF s1 Cons.prems] by simp
  then obtain ls2 where "handle_events evs ls1 = Some (Inr ls2)"
    and "game_step\<^sup>*\<^sup>* (game ls1) (game ls2)" and "fall_time ls2 = fall_time ls1"
    and "running ls2 = (running ls1 \<and> QUIT \<notin> set evs)"
    using Cons.IH by blast
  with ev s1 t1 r1 show ?case by (auto intro: rtranclp_trans)
qed simp

lemma gravity_steps:
  assumes inv: "tetris_inv (game ls)"
  shows "\<exists>ls'. gravity ls = Inr ls' \<and> game_step\<^sup>*\<^sup>* (game ls) (game ls') \<and> running ls' = running ls"
proof (cases "FALL_SPEED \<le> fall_time ls \<and> \<not> game_over (game ls)")
  case True
  then obtain st' where up: "update (game ls) = Inr st'" using update_inv inv by blast
  have "game_step (game ls) st'" using True up by (intro game_step.tick) simp_all
  with up True show ?thesis by (auto simp: gravity_def)
next
  case False
  then have "gravity ls = Inr ls" unfolding gravity_def by (rule if_not_P)
  then show ?thesis by blast
qed

lemma redraw_eq: "tetris_inv (game ls) \<Longrightarrow> redraw ls = Inr (ls\<lparr>screen := screen_of (game ls)\<rparr>)"
  by (simp add: redraw_def render_eq tetris_inv_def)

lemma frame_steps:
  assumes inv: "tetris_inv (game ls)"
  shows "\<exists>ls'. frame dt evs ls = Some (Inr ls') \<and> game_step\<^sup>*\<^sup>* (game ls) (game ls') \<and>
           running ls' = (running ls \<and> QUIT \<notin> set evs) \<and> screen ls' = screen_of (game ls')"
proof -
  let ?ls1 = "ls\<lparr>fall_time := fall_time ls + dt\<rparr>"
  obtain ls2 where ev: "handle_events evs ?ls1 = Some (Inr ls2)"
    and s2: "game_step\<^sup>*\<^sup>* (game ls) (game ls2)"
    and r2: "running ls2 = (running ls \<and> QUIT \<notin> set evs)"
    using handle_events_steps [of ?ls1 evs] inv by auto
  have inv2: "tetris_inv (game ls2)" using steps_inv [OF s2 inv] by simp
  obtain ls3 where g: "gravity ls2 = Inr ls3" and s3: "game_step\<^sup>*\<^sup>* (game ls2) (game ls3)"
    and r3: "running ls3 = running ls2"
    using gravity_steps [OF inv2] by blast
  have "tetris_inv (game ls3)" using steps_inv [OF s3 inv2] by simp
  then have "redraw ls3 = Inr (ls3\<lparr>screen := screen_of (game ls3)\<rparr>)" by (rule redraw_eq)
  with ev g s2 s3 r2 r3 show ?thesis by (auto simp: frame_def intro: rtranclp_trans)
qed

lemma run_frames_steps:
  "tetris_inv (game ls) \<Longrightarrow>
   \<exists>ls'. run_frames fs ls = Some (Inr ls') \<and> game_step\<^sup>*\<^sup>* (game ls) (game ls')"
proof (induction fs arbitrary: ls)
  case (Cons f fs)
  obtain dt evs where f: "f = (dt, evs)" by (cases f)
  show ?case
  proof (cases "running ls")
    case True
    obtain ls1 where fr: "frame dt evs ls = Some (Inr ls1)"
      and s1: "game_step\<^sup>*\<^sup>* (game ls) (game ls1)"
      using frame_steps [OF Cons.prems] by blast
    have "tetris_inv (game ls1)" using steps_inv [OF s1 Cons.prems] by simp
    with Cons.IH obtain ls2 where "run_frames fs ls1 = Some (Inr ls2)"
      and "game_step\<^sup>*\<^sup>* (game ls1) (game ls2)" by blast
    with f True fr s1 show ?thesis by (auto intro: rtranclp_trans)
  next
    case False
    with f show ?thesis by simp
  qed
qed simp

lemma start_eq:
  "start rs = Inr \<lparr>game = \<lparr>grid = empty_grid, current_piece = spawn (shd rs mod 7), game_over = False,
                          score = 0, rng = stl rs\<rparr>, running = True, fall_time = 0, screen = []\<rparr>"
  by (simp add: start_def init_def new_piece_eq)

lemma start_reachable: "start rs = Inr ls \<Longrightarrow> reachable (game ls)"
  by (auto simp: start_def bind_e_eq_Inr intro: reachable.start)

lemma reachable_initial:
  "reachable \<lparr>grid = empty_grid, current_piece = spawn (shd rs mod 7), game_over = False,
              score = 0, rng = stl rs\<rparr>"
  by (rule reachable.start [of rs]) (simp add: init_def new_piece_eq)

subsection \<open>Rows completed by one lock\<close>

text \<open>A row that is full after the piece is written must contain a cell of the piece,
  since the grid had no full row before.\<close>

lemma full_row_has_piece_cell:
  assumes wf: "wf_grid g" and nf: "no_full_rows g" and on: "list_all on_grid (piece_cells p)"
    and i: "i < length g" and full: "row_full (place g p ! i)"
  shows "\<exists>(cx, cy) \<in> set (piece_cells p). cy = int i"
proof (rule ccontr)
  assume none: "\<not> (\<exists>(cx, cy) \<in> set (piece_cells p). cy = int i)"
  have len: "length (place g p ! i) = length (g ! i)"
    using wf_place [OF wf on] wf i by (simp add: wf_grid_nth place_def)
  have "place g p ! i = g ! i"
  proof (rule nth_equalityI)
    show "length (place g p ! i) = length (g ! i)" by (rule len)
    fix c assume "c < length (place g p ! i)"
    with len i wf on none show "place g p ! i ! c = g ! i ! c"
      by (auto simp: place_nth)
  qed
  with full nf i show False by (simp add: no_full_rows_def list_all_length)
qed

lemma count_full_place:
  assumes wf: "wf_grid g" and nf: "no_full_rows g" and on: "list_all on_grid (piece_cells p)"
  shows "count_full (place g p) \<le> length (piece_shape p)"
proof -
  let ?rows = "(\<lambda>yy. nat (piece_y p + int yy)) ` {..<length (piece_shape p)}"
  have len: "length (place g p) = length g"
    using wf_place [OF wf on] wf by (simp add: wf_grid_def)
  have "{i. i < length (place g p) \<and> row_full (place g p ! i)} \<subseteq> ?rows"
  proof
    fix i assume "i \<in> {i. i < length (place g p) \<and> row_full (place g p ! i)}"
    then have "i < length g" "row_full (place g p ! i)" using len by auto
    then obtain cx cy where "(cx, cy) \<in> set (piece_cells p)" "cy = int i"
      using full_row_has_piece_cell [OF wf nf on] by blast
    then show "i \<in> ?rows"
      by (force simp: piece_cells_def in_cells)
  qed
  then have "card {i. i < length (place g p) \<and> row_full (place g p ! i)} \<le> card ?rows"
    by (rule card_mono [rotated]) simp
  also have "\<dots> \<le> length (piece_shape p)"
    by (metis card_image_le card_lessThan finite_lessThan)
  finally show ?thesis by (simp add: count_full_def length_filter_conv_card)
qed

subsection \<open>Properties of the game\<close>

text \<open>C1: the game never raises and never hangs: from \<open>Tetris()\<close>, for every sequence of
  generator draws and every finite sequence of frames (elapsed time and pending
  events), the main loop runs every frame to its end, hard drops included, and every
  state it passes through satisfies the invariant.\<close>

theorem main_loop_safe:
  "\<exists>ls ls'. start rs = Inr ls \<and> run_frames fs ls = Some (Inr ls') \<and> reachable (game ls') \<and>
            tetris_inv (game ls')"
proof -
  obtain ls where st: "start rs = Inr ls" using start_eq by blast
  then have r: "reachable (game ls)" by (rule start_reachable)
  obtain ls' where "run_frames fs ls = Some (Inr ls')" and "game_step\<^sup>*\<^sup>* (game ls) (game ls')"
    using run_frames_steps [OF reachable_inv [OF r]] by blast
  with st r show ?thesis by (blast intro: reachable_steps reachable_inv)
qed

text \<open>C2: in every reachable state the grid has its configured size and no full row,
  the current piece is one of the 28 orientations of the seven shapes, it is not above
  row 0, it fits where it is unless the game is over, and the score is not negative.\<close>

theorem reachable_invariant:
  assumes "reachable st"
  shows "wf_grid (grid st) \<and> no_full_rows (grid st) \<and>
         piece_shape (current_piece st) \<in> set orientations \<and> 0 \<le> piece_y (current_piece st) \<and>
         (game_over st \<or> fits (grid st) (current_piece st) 0 0) \<and> 0 \<le> score st \<and>
     100 dvd score st"
  using reachable_inv [OF assms] by (simp add: tetris_inv_def)

theorem reachable_invariant_witness:
  "wf_grid empty_grid \<and> no_full_rows empty_grid \<and> piece_shape (spawn 2) \<in> set orientations \<and>
   0 \<le> piece_y (spawn 2) \<and> (False \<or> fits empty_grid (spawn 2) 0 0) \<and> 0 \<le> (0::int)"
  using reachable_invariant [OF reachable_initial [of "sconst 2"]] by simp

text \<open>C11: in a running reachable state, wherever the current piece is locked, the
  clearing pass that follows removes at most four rows (the number of rows of the
  piece), so the scoring table's range 0--4 covers every lock.\<close>

theorem lines_cleared_at_most_four:
  assumes "reachable st" and "\<not> game_over st" and "fits (grid st) p 0 0" and "0 \<le> piece_y p"
    and "piece_shape p = piece_shape (current_piece st)"
    and "lock_cells (grid st) p = Inr g'" and "clear_rows g' [0..<nat GRID_HEIGHT] 0 = Inr (g'', n)"
  shows "n \<le> 4"
proof -
  have inv: "tetris_inv st" using assms(1) by (rule reachable_inv)
  then have wf: "wf_grid (grid st)" and nf: "no_full_rows (grid st)"
    and o: "piece_shape p \<in> set orientations"
    using assms(5) by (simp_all add: tetris_inv_def)
  have on: "list_all on_grid (piece_cells p)" using assms(3,4) by (rule fits_on_grid)
  have g': "g' = place (grid st) p" using assms(6) wf on by (simp add: lock_cells_eq)
  have "length g' = nat GRID_HEIGHT" using wf_place [OF wf on] g' by (simp add: wf_grid_def)
  then have "n = count_full g'" using assms(7) clear_rows_from [of 0 g' 0] by simp
  also have "\<dots> \<le> length (piece_shape p)" using count_full_place [OF wf nf on] g' by simp
  also have "\<dots> \<le> 4" using o by (rule orientation_height)
  finally show ?thesis .
qed

theorem lines_cleared_at_most_four_witness:
  "count_full (place empty_grid ((spawn 0)\<lparr>piece_y := 19\<rparr>)) \<le> 4"
proof -
  let ?st = "\<lparr>grid = empty_grid, current_piece = spawn (shd (sconst 0) mod 7), game_over = False,
              score = 0, rng = stl (sconst (0::nat))\<rparr>"
  let ?p = "(spawn 0)\<lparr>piece_y := 19\<rparr>"
  have fit: "fits empty_grid ?p 0 0" by code_simp
  have on: "list_all on_grid (piece_cells ?p)" by code_simp
  have lock: "lock_cells empty_grid ?p = Inr (place empty_grid ?p)"
    using lock_cells_eq [OF wf_empty_grid on] .
  have "length (place empty_grid ?p) = nat GRID_HEIGHT"
    using wf_place [OF wf_empty_grid on] by (simp add: wf_grid_def)
  then have clr: "clear_rows (place empty_grid ?p) [0..<nat GRID_HEIGHT] 0 =
                  Inr (clear_ref (place empty_grid ?p), count_full (place empty_grid ?p))"
    using clear_rows_from [of 0 "place empty_grid ?p" 0] by simp
  show ?thesis
    using lines_cleared_at_most_four [OF reachable_initial [of "sconst 0"], of ?p
        "place empty_grid ?p" "clear_ref (place empty_grid ?p)" "count_full (place empty_grid ?p)"]
      fit lock clr by (simp add: spawn_def)
qed

lemma handle_events_over:
  "game_over (game ls) \<Longrightarrow>
   handle_events evs ls = Some (Inr (ls\<lparr>running := running ls \<and> QUIT \<notin> set evs\<rparr>))"
  by (induction evs arbitrary: ls) (auto simp: handle_event_def)

text \<open>C15: once the game is over, a frame changes nothing of the game: neither the
  grid, nor the score, nor the stored piece; only the loop's own \<open>running\<close> flag and
  timer move, and the screen is redrawn from the unchanged game.\<close>

theorem game_over_frozen:
  assumes "game_over (game ls)" and "wf_grid (grid (game ls))"
  shows "frame dt evs ls =
           Some (Inr (ls\<lparr>running := running ls \<and> QUIT \<notin> set evs, fall_time := fall_time ls + dt,
                        screen := screen_of (game ls)\<rparr>))"
  using assms handle_events_over [of "ls\<lparr>fall_time := fall_time ls + dt\<rparr>" evs]
  by (simp add: frame_def gravity_def redraw_def render_eq)

theorem game_over_frozen_witness:
  "frame 600 [KEYDOWN K_SPACE, KEYDOWN K_UP]
     \<lparr>game = \<lparr>grid = empty_grid, current_piece = spawn 0, game_over = True, score = 300,
              rng = sconst 0\<rparr>, running = True, fall_time = 0, screen = []\<rparr> =
   Some (Inr \<lparr>game = \<lparr>grid = empty_grid, current_piece = spawn 0, game_over = True, score = 300,
                     rng = sconst 0\<rparr>, running = True, fall_time = 600,
              screen = screen_of \<lparr>grid = empty_grid, current_piece = spawn 0, game_over = True,
                                   score = 300, rng = sconst 0\<rparr>\<rparr>)"
  using game_over_frozen [of "\<lparr>game = \<lparr>grid = empty_grid, current_piece = spawn 0, game_over = True,
      score = 300, rng = sconst 0\<rparr>, running = True, fall_time = 0, screen = []\<rparr>" 600
      "[KEYDOWN K_SPACE, KEYDOWN K_UP]"] wf_empty_grid
  by simp

text \<open>C23: the score never decreases along a run: every transition of a reachable
  state (a key press or a gravity step) keeps or raises it.\<close>

theorem score_monotone:
  assumes "reachable st" and "game_step st st'"
  shows "score st \<le> score st'"
  using game_step_inv [OF assms(2) reachable_inv [OF assms(1)]] by simp

theorem score_monotone_witness:
  "score \<lparr>grid = empty_grid, current_piece = spawn 0, game_over = False, score = 0, rng = sconst (0::nat)\<rparr>
   \<le> score \<lparr>grid = empty_grid, current_piece = (spawn 0)\<lparr>piece_y := 1\<rparr>, game_over = False, score = 0,
              rng = sconst (0::nat)\<rparr>"
proof -
  let ?st = "\<lparr>grid = empty_grid, current_piece = spawn 0, game_over = False, score = 0,
              rng = sconst (0::nat)\<rparr>"
  have r: "reachable ?st" using reachable_initial [of "sconst 0"] by simp
  have "fits empty_grid (spawn 0) 0 1" by code_simp
  then have "update ?st = Inr (?st\<lparr>current_piece := (spawn 0)\<lparr>piece_y := 1\<rparr>\<rparr>)"
    by (simp add: update_eq wf_empty_grid spawn_def)
  then have "game_step ?st (?st\<lparr>current_piece := (spawn 0)\<lparr>piece_y := 1\<rparr>\<rparr>)"
    by (intro game_step.tick) simp_all
  from score_monotone [OF r this] show ?thesis by simp
qed

subsection \<open>Progress of gravity and the end of the loop\<close>

lemma gravity_locks:
  assumes "tetris_inv st" and "\<not> game_over st"
  shows "\<exists>k \<le> nat (GRID_HEIGHT - piece_y (current_piece st)). \<exists>st'.
           ticks (Suc k) st = Inr st' \<and> rng st' = stl (rng st)"
  using assms
proof (induction "nat (GRID_HEIGHT - piece_y (current_piece st))" arbitrary: st rule: less_induct)
  case less
  let ?p = "current_piece st" and ?g = "grid st"
  have wf: "wf_grid ?g" and o: "piece_shape ?p \<in> set orientations"
    and y: "0 \<le> piece_y ?p" and fit: "fits ?g ?p 0 0"
    using less.prems by (simp_all add: tetris_inv_def)
  show ?case
  proof (cases "fits ?g ?p 0 1")
    case True
    let ?down = "st\<lparr>current_piece := ?p\<lparr>piece_y := piece_y ?p + 1\<rparr>\<rparr>"
    have ne: "cells (piece_shape ?p) \<noteq> []" using orientation_cells [OF o] by auto
    then obtain xx yy where "(xx, yy) \<in> set (cells (piece_shape ?p))"
      by (metis hd_in_set surj_pair)
    then have "piece_y ?p + 1 < GRID_HEIGHT" using fits_below_floor [OF True] by simp
    then have dec: "nat (GRID_HEIGHT - piece_y (current_piece ?down)) < nat (GRID_HEIGHT - piece_y ?p)"
      by simp
    have inv': "tetris_inv ?down"
      using less.prems(1) True by (intro shift_inv) (simp_all add: fits_down)
    obtain k st' where k: "k \<le> nat (GRID_HEIGHT - piece_y (current_piece ?down))"
      and t: "ticks (Suc k) ?down = Inr st'" and r: "rng st' = stl (rng ?down)"
      using less.hyps [OF dec inv'] less.prems(2) by auto
    have "update st = Inr ?down" using wf less.prems(2) True by (simp add: update_eq)
    then have "ticks (Suc (Suc k)) st = Inr st'" using t by simp
    moreover have "Suc k \<le> nat (GRID_HEIGHT - piece_y ?p)" using k dec by simp
    ultimately show ?thesis using r by (intro exI [of _ "Suc k"]) auto
  next
    case False
    have on: "list_all on_grid (piece_cells ?p)" using fit y by (rule fits_on_grid)
    have "update st = lock_piece ?p st" using wf less.prems(2) False by (simp add: update_eq)
    then show ?thesis using wf on by (intro exI [of _ 0]) (simp add: lock_piece_eq)
  qed
qed

text \<open>C8: progress under gravity: in a running reachable state, if no key is pressed,
  the current piece is locked and the next one drawn within at most 21 gravity steps,
  whatever the grid holds.\<close>

theorem piece_locks_under_gravity:
  assumes "reachable st" and "\<not> game_over st"
  shows "\<exists>k \<le> 20. \<exists>st'. ticks (Suc k) st = Inr st' \<and> rng st' = stl (rng st)"
proof -
  have inv: "tetris_inv st" using assms(1) by (rule reachable_inv)
  then have "0 \<le> piece_y (current_piece st)" by (simp add: tetris_inv_def)
  then have "nat (GRID_HEIGHT - piece_y (current_piece st)) \<le> 20" by (simp add: GRID_HEIGHT_def)
  with gravity_locks [OF inv assms(2)] show ?thesis by (meson order_trans)
qed

theorem piece_locks_under_gravity_witness:
  "\<exists>k \<le> 20. \<exists>st'. ticks (Suc k) \<lparr>grid = empty_grid, current_piece = spawn 3, game_over = False,
       score = 0, rng = sconst (3::nat)\<rparr> = Inr st' \<and> rng st' = sconst 3"
  using piece_locks_under_gravity [OF reachable_initial [of "sconst 3"]] by simp

text \<open>C16: \<open>QUIT\<close> ends the loop after the frame that receives it: that frame still
  handles its remaining events and its gravity step, and no later frame runs.\<close>

theorem quit_ends_loop:
  assumes "reachable (game ls)" and "running ls" and "QUIT \<in> set evs"
  shows "run_frames ((dt, evs) # fs) ls = frame dt evs ls"
proof -
  obtain ls' where fr: "frame dt evs ls = Some (Inr ls')"
    and "running ls' = (running ls \<and> QUIT \<notin> set evs)"
    using frame_steps [OF reachable_inv [OF assms(1)]] by blast
  with assms(2,3) show ?thesis by (cases fs) (auto split: prod.splits)
qed

theorem quit_ends_loop_witness:
  "run_frames [(16, [QUIT]), (16, [KEYDOWN K_SPACE])]
     \<lparr>game = \<lparr>grid = empty_grid, current_piece = spawn 1, game_over = False, score = 0,
              rng = sconst 1\<rparr>, running = True, fall_time = 0, screen = []\<rparr> =
   frame 16 [QUIT] \<lparr>game = \<lparr>grid = empty_grid, current_piece = spawn 1, game_over = False, score = 0,
              rng = sconst 1\<rparr>, running = True, fall_time = 0, screen = []\<rparr>"
  using quit_ends_loop [of "\<lparr>game = \<lparr>grid = empty_grid, current_piece = spawn 1, game_over = False,
      score = 0, rng = sconst 1\<rparr>, running = True, fall_time = 0, screen = []\<rparr>" "[QUIT]" 16 "[(16, [KEYDOWN K_SPACE])]"]
    reachable_initial [of "sconst 1"] by simp



subsection \<open>Cell colours and the screen\<close>

text \<open>C10: the cell type: in every reachable state each cell of the grid is empty or holds
  one of the seven piece colours, and so does the current piece, so the grid never
  holds a value \<open>draw\<close> could not paint.\<close>

theorem colours_well_typed:
  assumes "reachable st"
  shows "grid_colours (grid st) \<and> piece_color (current_piece st) \<in> set COLORS"
  using reachable_inv [OF assms] by (simp add: tetris_inv_def)

theorem colours_well_typed_witness:
  "grid_colours empty_grid \<and> piece_color (spawn 5) \<in> set COLORS"
  using colours_well_typed [OF reachable_initial [of "sconst 5"]] by simp

text \<open>C17: each frame ends with a redraw of the state it leaves: from a reachable game,
  the frame runs to its end, the game it leaves is reachable, and the screen holds
  exactly the picture of that game.\<close>

theorem frame_redraws:
  assumes "reachable (game ls)"
  shows "\<exists>ls'. frame dt evs ls = Some (Inr ls') \<and> reachable (game ls') \<and>
           screen ls' = screen_of (game ls')"
  using frame_steps [OF reachable_inv [OF assms]] assms by (blast intro: reachable_steps)

theorem frame_redraws_witness:
  "\<exists>ls'. frame 500 [] \<lparr>game = \<lparr>grid = empty_grid, current_piece = spawn 6, game_over = False,
                                 score = 0, rng = sconst 6\<rparr>, running = True, fall_time = 0,
                         screen = []\<rparr> = Some (Inr ls') \<and> reachable (game ls') \<and>
         screen ls' = screen_of (game ls')"
  using frame_redraws [of "\<lparr>game = \<lparr>grid = empty_grid, current_piece = spawn 6, game_over = False,
      score = 0, rng = sconst 6\<rparr>, running = True, fall_time = 0, screen = []\<rparr>" 500 "[]"]
    reachable_initial [of "sconst 6"] by simp

end
