(* ===== verification/Spec2Isabelle.thy ===== *)
theory Spec2Isabelle
  imports Game_Loop
begin

text \<open>
  \<^bold>\<open>Verification of the falling-block game of \<open>src/tetris.py\<close>.\<close>

  \<^bold>\<open>The program.\<close>  One Python file: configuration constants (grid size, colours,
  the seven tetromino matrices), the class \<open>Tetris\<close> holding the grid, the current
  piece, the score and the game-over flag, with methods \<open>new_piece\<close>, \<open>valid_move\<close>,
  \<open>lock_piece\<close>, \<open>clear_lines\<close>, \<open>rotate_piece\<close>, \<open>update\<close> and \<open>draw\<close>, and a main loop
  that turns pygame key events into moves, rotations and hard drops and calls
  \<open>update\<close> every half second, and stops after a frame with a \<open>QUIT\<close> event.  The loop calls the engine; the engine calls
  \<open>valid_move\<close> for every move and \<open>lock_piece\<close> when a piece cannot fall further;
  \<open>lock_piece\<close> calls \<open>clear_lines\<close> (which scores) and \<open>new_piece\<close> (which draws from
  the global random generator).

  \<^bold>\<open>The theories.\<close>
  \<^item> \<open>Prelude\<close>: Python's run-time behaviour the code relies on: exceptions as
    \<open>py_error + 'a\<close> threaded by \<open>bind_e\<close>; list subscripts \<open>py_get\<close>/\<open>py_set\<close> with
    negative indices and IndexError; \<open>list.index\<close> (\<open>py_index\<close>, ValueError);
    \<open>random.choice\<close> over a raw draw.
  \<^item> \<open>Pieces\<close>: lines 7--49, 64--73 and 125--128: \<open>GRID_WIDTH\<close>, \<open>GRID_HEIGHT\<close>,
    \<open>COLORS\<close>, \<open>SHAPES\<close>, the piece dictionary as the record \<open>piece\<close>, \<open>new_piece\<close>, and
    the rotation comprehension \<open>rotated_shape\<close>; the abstract rotation \<open>rot\<close> (four
    rotations are the identity on rectangular matrices) and the 28 \<open>orientations\<close>.
  \<^item> \<open>Grid\<close>: the grid as a list of rows (\<open>None\<close> for the empty cell 0), and the loop of
    \<open>clear_lines\<close> (\<open>clear_rows\<close> with its shift \<open>shift_rows\<close>), proved equal to
    \<open>clear_ref\<close>, which drops the full rows and pads empty rows on top.
  \<^item> \<open>Placement\<close>: \<open>valid_move\<close> (lines 75--86) and the writing loop of \<open>lock_piece\<close>
    (\<open>lock_cells\<close>, lines 88--92), refined to \<open>fits\<close> and \<open>place\<close>.
  \<^item> \<open>Engine\<close>: the object state as the record \<open>tetris\<close> (plus the remaining generator
    draws \<open>rng\<close>), and \<open>init\<close>, \<open>clear_lines\<close> with \<open>score_delta\<close>, \<open>lock_piece\<close>,
    \<open>rotate_piece\<close>, \<open>update\<close>, the hard-drop loop \<open>drop_loop\<close>
    (\<open>partial_function (option)\<close>: \<open>None\<close> is non-termination) and \<open>hard_drop\<close>; each
    method is proved equal to a closed form on well-formed grids.
  \<^item> \<open>Render\<close>: lines 8--10, 22, 25--26, 144--174 and 219--220: \<open>Tetris.draw\<close> as the
    list of drawing calls it makes (\<open>draw_cmd\<close>: fill, rectangle, text blit), built by
    \<open>draw_grid\<close>/\<open>draw_row\<close>/\<open>cell_cmds\<close> (Python subscripts on the grid),
    \<open>draw_piece\<close> and \<open>draw_overlay\<close> (piece unless game over, score text through
    Python's \<open>str\<close>, modelled in \<open>Prelude\<close> as \<open>py_str_int\<close>, game-over banner), and
    the per-frame \<open>render\<close>; its closed form \<open>screen_of\<close>.
  \<^item> \<open>Game_Loop\<close>: lines 177--221: events, \<open>key_handler\<close>, \<open>handle_event\<close>,
    \<open>handle_events\<close>, the gravity timer \<open>gravity\<close>, the \<open>redraw\<close> that stores the
    picture in the loop state's \<open>screen\<close>, \<open>frame\<close> and \<open>run_frames\<close> (the
    \<open>while running\<close> loop over a finite sequence of frames); the step relation
    \<open>game_step\<close> of the transitions the loop triggers, \<open>reachable\<close> states, and the
    invariant \<open>tetris_inv\<close>.
  \<^item> This theory: the properties of what the player sees, which combine the
    invariant of \<open>Game_Loop\<close> with the picture lemmas of \<open>Render\<close>.

  \<^bold>\<open>What is proved.\<close>  The main loop never raises, every hard drop ends and every redraw succeeds, from
  any generator stream and for any frames (\<open>Game_Loop.main_loop_safe\<close>); the
  invariant holds in every reachable state (\<open>Game_Loop.reachable_invariant\<close>, rule
  induction with one preservation lemma per key and one for the gravity step); the
  single-pass row clearing is exactly the reference (\<open>Grid.clear_rows_correct\<close>);
  \<open>valid_move\<close> and the lock writes refine \<open>fits\<close> and \<open>place\<close>; \<open>lock_piece\<close>'s
  closed form; termination of the hard drop by the measure \<open>GRID_HEIGHT - y\<close>; at
  most four rows cleared per lock; the scoring example of the specification (four
  rows at once score 800); after game over a frame leaves the game unchanged; four
  rotations are the identity; every spawn fits an empty grid; the score never
  decreases and is always a multiple of 100.  Liveness: with no key pressed, gravity
  (\<open>Game_Loop.ticks\<close>, repeated \<open>update\<close>) locks every piece within 21 steps
  (\<open>Game_Loop.piece_locks_under_gravity\<close>, induction on \<open>GRID_HEIGHT - y\<close>).  The
  loop stops after the frame that receives \<open>QUIT\<close>, which itself still completes
  (\<open>Game_Loop.quit_ends_loop\<close>).  The game-over example of the specification
  (a blocked spawn position ends the game at the next lock) is a theorem.  Three
  divergences from the specification are theorems too: a lock at a negative row
  writes the bottom row (Python indexing); \<open>rotate_piece\<close> itself does not check
  \<open>game_over\<close>; and the single-row scoring example, taken literally, has a second
  full row, so the code clears two rows and scores 300.  The cell type: grid cells and
  the piece only ever hold one of the seven colours (\<open>Game_Loop.colours_well_typed\<close>,
  part of the invariant).  What is drawn: after each frame the screen holds the
  picture of the current game (\<open>Game_Loop.frame_redraws\<close>); that picture paints a
  cell exactly where the grid or the falling piece occupies it, in its colour
  (\<open>render_shows_board\<close>, a refinement of the screen to the abstract board); nothing
  is drawn outside the window (\<open>render_in_window\<close>); the score text decodes back to
  the score (\<open>Render.render_score_text\<close>, a round trip through \<open>str\<close>).

  \<^bold>\<open>Choices.\<close>  Python integers are \<open>int\<close>; rows are values, which is faithful
  because the code never aliases two rows (every row it stores is a fresh list).
  \<open>random.choice\<close> on draw \<open>k\<close> selects element \<open>k mod 7\<close>; all theorems quantify
  over the whole draw stream.  Time is counted in whole milliseconds
  (\<open>clock.tick\<close> returns them); the source's float sum of seconds may round
  differently at the 0.5 s boundary, which only shifts the frame at which gravity
  fires.  No fuel is used: the only unbounded loop is \<open>drop_loop\<close>, and its
  termination is a theorem.

  \<^bold>\<open>Not modelled.\<close>  The pygame set-up and device calls (\<open>pygame.init\<close>,
  \<open>display.set_mode\<close>, \<open>set_caption\<close>, \<open>time.Clock\<close>, \<open>display.update\<close>,
  \<open>pygame.quit\<close>): they open and flip the window.  The screen surface is the list of
  calls drawn on it since the last fill; fonts are named by their size, and glyph
  rasterisation is pygame's.  The event queue and the clock are inputs: a frame
  takes the events and the elapsed milliseconds as arguments.
\<close>

subsection \<open>What the player sees\<close>

lemma reachable_screen:
  assumes "reachable st"
  shows "render st = Inr (screen_of st) \<and>
         (\<not> game_over st \<longrightarrow> list_all on_grid (piece_cells (current_piece st)))"
proof -
  have "tetris_inv st" using assms by (rule reachable_inv)
  then show ?thesis by (auto simp: tetris_inv_def render_eq intro: fits_on_grid)
qed

text \<open>C9: the screen shows the board: in every reachable state the redraw never raises,
  and a filled cell-sized square is drawn at a cell exactly when that cell is on the
  grid and holds that colour, or (while the game runs) the current piece covers it
  and the colour is the piece's.\<close>

theorem render_shows_board:
  assumes "reachable st"
  shows "\<exists>pic. render st = Inr pic \<and>
           (\<forall>x y col. Rect col (cell_rect x y) 0 \<in> set pic \<longleftrightarrow>
              on_grid (x, y) \<and>
              (grid st ! nat y ! nat x = Some col \<or>
               \<not> game_over st \<and> (x, y) \<in> set (piece_cells (current_piece st)) \<and>
               col = piece_color (current_piece st)))"
proof -
  have r: "render st = Inr (screen_of st)"
    and on: "\<not> game_over st \<Longrightarrow> list_all on_grid (piece_cells (current_piece st))"
    using reachable_screen [OF assms] by simp_all
  have piece: "Rect col (cell_rect x y) 0 \<in> set (draw_piece p) \<longleftrightarrow>
                 (x, y) \<in> set (piece_cells p) \<and> col = piece_color p" for x y col p
    by (auto simp: Rect_draw_piece CELL_SIZE_def)
  have board: "Rect col (cell_rect x y) 0 \<in> set (grid_pic g) \<longleftrightarrow>
                 on_grid (x, y) \<and> g ! nat y ! nat x = Some col" for g x y col
    by (auto simp: Rect_grid_pic CELL_SIZE_def)
  have "Rect col (cell_rect x y) 0 \<in> set (screen_of st) \<longleftrightarrow>
          on_grid (x, y) \<and>
          (grid st ! nat y ! nat x = Some col \<or>
           \<not> game_over st \<and> (x, y) \<in> set (piece_cells (current_piece st)) \<and>
           col = piece_color (current_piece st))" for x y col
    using on by (auto simp: Rect_filled_screen_of board piece list_all_iff)
  with r show ?thesis by blast
qed

theorem render_shows_board_witness:
  "\<exists>pic. render \<lparr>grid = empty_grid, current_piece = spawn 0, game_over = False, score = 0,
                  rng = sconst 0\<rparr> = Inr pic \<and>
     (\<forall>x y col. Rect col (cell_rect x y) 0 \<in> set pic \<longleftrightarrow>
        on_grid (x, y) \<and>
        (empty_grid ! nat y ! nat x = Some col \<or>
         \<not> False \<and> (x, y) \<in> set (piece_cells (spawn 0)) \<and> col = piece_color (spawn 0)))"
  using render_shows_board [OF reachable_initial [of "sconst 0"]] by simp

text \<open>C18: nothing is drawn off screen: in every reachable state each rectangle of the
  redraw lies inside the board area and each text is anchored inside the window.\<close>

theorem render_in_window:
  assumes "reachable st"
  shows "\<exists>pic. render st = Inr pic \<and> list_all in_window pic"
  using reachable_screen [OF assms] in_window_screen_of [of st] by blast

theorem render_in_window_witness:
  "\<exists>pic. render \<lparr>grid = empty_grid, current_piece = spawn 1, game_over = False, score = 0,
                  rng = sconst 1\<rparr> = Inr pic \<and> list_all in_window pic"
  using render_in_window [OF reachable_initial [of "sconst 1"]] by simp

end
